theory Spec2Isabelle
  imports Complex_Main
begin

section \<open>Duration formatting (app.py, lines 8-17)\<close>

text \<open>
  Python renders an integer with \<^verbatim>\<open>f"{n}"\<close> as its decimal digits, with a leading
  minus sign when negative, and with \<^verbatim>\<open>f"{n:02d}"\<close> the same, filled with zeros on
  the left (after the sign) up to a width of two characters.
\<close>

definition digit_char :: "nat \<Rightarrow> char" where
  "digit_char d =
     (if d = 0 then CHR ''0'' else if d = 1 then CHR ''1'' else if d = 2 then CHR ''2''
      else if d = 3 then CHR ''3'' else if d = 4 then CHR ''4'' else if d = 5 then CHR ''5''
      else if d = 6 then CHR ''6'' else if d = 7 then CHR ''7'' else if d = 8 then CHR ''8''
      else CHR ''9'')"

fun str_nat :: "nat \<Rightarrow> string" where
  "str_nat n = (if n < 10 then [digit_char n] else str_nat (n div 10) @ [digit_char (n mod 10)])"

declare str_nat.simps [simp del]

definition str_int :: "int \<Rightarrow> string" where
  "str_int i = (if i < 0 then CHR ''-'' # str_nat (nat (- i)) else str_nat (nat i))"

definition zero_fill :: "nat \<Rightarrow> string \<Rightarrow> string" where
  "zero_fill w s = replicate (w - length s) CHR ''0'' @ s"

definition fmt_02d :: "int \<Rightarrow> string" where
  "fmt_02d i =
     (if i < 0 then CHR ''-'' # zero_fill 1 (str_nat (nat (- i))) else zero_fill 2 (str_nat (nat i)))"

text \<open>
  The exceptions that the handlers meet. \<open>ValueError\<close> and \<open>OverflowError\<close> are Python's
  (of \<^verbatim>\<open>int\<close> on a float that is not finite, and of \<^verbatim>\<open>urlparse\<close>); \<open>ConnectFailed\<close>,
  \<open>ResolveFailed\<close> and \<open>ApiFailed\<close> stand for whatever connecting to a voice channel,
  \<^verbatim>\<open>create_source\<close> and the Spotify client raise, with the text of the exception;
  \<open>NoVoiceClient\<close> is the \<^verbatim>\<open>AttributeError\<close> of a call on a voice client that is \<^verbatim>\<open>None\<close>
  and \<open>AlreadyPlaying\<close> the library's refusal to play while playing.
\<close>

datatype error =
    ConnectFailed string
  | ResolveFailed string
  | ApiFailed string
  | NoVoiceClient
  | AlreadyPlaying
  | ValueError string
  | OverflowError string

text \<open>
  The duration is \<^verbatim>\<open>None\<close> or a number of seconds: a Python integer, or a float, which
  is a rational, an infinity or not a number. \<^verbatim>\<open>int(duration)\<close> is the integer itself,
  drops the fraction of a finite float towards zero, and raises on the other floats.
  \<^verbatim>\<open>divmod\<close> on Python integers is floor division with a remainder of the divisor's
  sign, which is \<open>div\<close> and \<open>mod\<close> on \<^typ>\<open>int\<close>.
\<close>

datatype number = PyInt int | PyFloat rat | PyInf | PyNegInf | PyNaN

definition trunc :: "rat \<Rightarrow> int" where
  "trunc x = (if 0 \<le> x then \<lfloor>x\<rfloor> else \<lceil>x\<rceil>)"

definition int_of_duration :: "number \<Rightarrow> error + int" where
  "int_of_duration n =
     (case n of
        PyInt i \<Rightarrow> Inr i
      | PyFloat x \<Rightarrow> Inr (trunc x)
      | PyInf \<Rightarrow> Inl (OverflowError ''cannot convert float infinity to integer'')
      | PyNegInf \<Rightarrow> Inl (OverflowError ''cannot convert float infinity to integer'')
      | PyNaN \<Rightarrow> Inl (ValueError ''cannot convert float NaN to integer''))"

definition format_duration :: "number option \<Rightarrow> error + string" where
  "format_duration duration =
     (case duration of
        None \<Rightarrow> Inr ''Unknown''
      | Some n \<Rightarrow>
          (case int_of_duration n of
             Inl e \<Rightarrow> Inl e
           | Inr d \<Rightarrow>
               (let hours = d div 3600; remainder = d mod 3600;
                    minutes = remainder div 60; seconds = remainder mod 60
                in if hours > 0
                   then Inr (str_int hours @ '':'' @ fmt_02d minutes @ '':'' @ fmt_02d seconds)
                   else Inr (str_int minutes @ '':'' @ fmt_02d seconds))))"

section \<open>State of the bot\<close>

text \<open>
  A \<^verbatim>\<open>YTDLSource\<close> (lines 142-198) is a Python object: the deque, \<^verbatim>\<open>queue.current\<close> and
  the voice client's player hold references to it, and the class defines no equality, so
  two sources are the same exactly when they are the same object. Objects live in a
  store, \<open>sources\<close>, under a reference; \<open>next_ref\<close> is the next unused reference, so
  every \<^verbatim>\<open>create_source\<close> that returns yields a fresh one. The attribute \<^verbatim>\<open>volume\<close>
  (of \<^verbatim>\<open>PCMVolumeTransformer\<close>) is the only one written after creation. It is a Python
  float; the model keeps the exact rational \<open>pct / 100\<close>.
\<close>

type_synonym guild_id = nat
type_synonym source_ref = nat

record YTDLSource =
  title :: string
  uploader :: string
  duration :: "number option"
  thumbnail :: "string option"
  source_volume :: rat

text \<open>What \<^verbatim>\<open>create_source\<close> gets from the extractor: the fields of \<^verbatim>\<open>data\<close> it reads.\<close>

record track_data =
  data_title :: string
  data_uploader :: string
  data_duration :: "number option"
  data_thumbnail :: "string option"

definition YTDLSource_init :: "track_data \<Rightarrow> YTDLSource" where
  "YTDLSource_init d =
     \<lparr>title = data_title d, uploader = data_uploader d, duration = data_duration d,
      thumbnail = data_thumbnail d, source_volume = 1\<rparr>"

text \<open>\<^verbatim>\<open>MusicQueue\<close> (lines 133-140); the deque is a list with its left end first.\<close>

record MusicQueue =
  queue :: "source_ref list"
  current :: "source_ref option"
  loop :: bool
  volume :: rat
  processing :: bool

definition MusicQueue_init :: MusicQueue where
  "MusicQueue_init = \<lparr>queue = [], current = None, loop = False, volume = 1, processing = True\<rparr>"

text \<open>
  Modelled from the spec: the voice client of a guild is the Player of the spec's
  section 6 (\<^verbatim>\<open>start\<close>, \<^verbatim>\<open>stop\<close>, \<^verbatim>\<open>isPlaying\<close>, \<^verbatim>\<open>disconnect\<close> and the completion
  callback), an object of the voice library and not code of this repository. The model
  keeps what the bot reads of it: \<open>vc_source\<close> is \<^verbatim>\<open>voice_client.source\<close> (the source
  of the player, \<^verbatim>\<open>None\<close> when there is no player) and \<open>vc_playing\<close> is
  \<^verbatim>\<open>voice_client.is_playing()\<close>. A guild without an entry in \<open>voice_clients\<close> has
  \<^verbatim>\<open>guild.voice_client\<close> equal to \<^verbatim>\<open>None\<close>. The channel the client is connected to is
  not kept: \<^verbatim>\<open>move_to\<close> changes nothing else, and the number of humans in the channel
  is given with each voice state update.
\<close>

record VoiceClient =
  vc_source :: "source_ref option"
  vc_playing :: bool

datatype message =
    NeedVoiceChannel
  | AddedToQueue source_ref string
  | NowPlaying source_ref string
  | ErrorOccurred error
  | PlayerError string
  | StoppedProcessing string
  | InvalidSpotifyUrl
  | SpotifyError error
  | QueueEmpty
  | QueueShown "(source_ref \<times> string) option" "(source_ref \<times> string) list"
  | LoopMode bool
  | VolumeOutOfRange
  | VolumeSet int
  | NotPlayingAudio
  | QueueCleared
  | StoppedPlaying
  | Disconnected
  | NoSongPlaying
  | NoMoreSongs

text \<open>
  The bot: \<^verbatim>\<open>bot.music_queues\<close> (line 92), the voice client of each guild, the store of
  sources, and the effects on the outside: \<open>sent\<close> lists the \<^verbatim>\<open>ctx.send\<close> calls in order,
  \<open>resolve_calls\<close> the queries handed to \<^verbatim>\<open>YTDLSource.create_source\<close>. Two parts of the
  event loop's state are kept as well: \<open>after_tasks\<close>, the tasks created by the \<^verbatim>\<open>after\<close>
  callback of line 289 that have not run yet (each with the callback's argument \<^verbatim>\<open>e\<close>),
  and \<open>sleepers\<close>, the number of \<^verbatim>\<open>on_voice_state_update\<close> handlers suspended in the
  \<^verbatim>\<open>asyncio.sleep(5)\<close> of line 119.
\<close>

record Bot =
  music_queues :: "guild_id \<rightharpoonup> MusicQueue"
  voice_clients :: "guild_id \<rightharpoonup> VoiceClient"
  sources :: "source_ref \<rightharpoonup> YTDLSource"
  next_ref :: source_ref
  after_tasks :: "guild_id \<Rightarrow> string option list"
  sleepers :: "guild_id \<Rightarrow> nat"
  sent :: "(guild_id \<times> message) list"
  resolve_calls :: "(guild_id \<times> string) list"

definition Bot_init :: Bot where
  "Bot_init =
     \<lparr>music_queues = Map.empty, voice_clients = Map.empty, sources = Map.empty, next_ref = 0,
      after_tasks = (\<lambda>_. []), sleepers = (\<lambda>_. 0), sent = [], resolve_calls = []\<rparr>"

definition send :: "guild_id \<Rightarrow> message \<Rightarrow> Bot \<Rightarrow> Bot" where
  "send g m b = b\<lparr>sent := sent b @ [(g, m)]\<rparr>"

text \<open>
  \<^verbatim>\<open>get_queue\<close> (lines 205-209) creates the guild's queue on first use. \<open>the_queue\<close> is
  the object it returns and \<open>set_queue\<close> writes the object's fields back. Entries of
  \<^verbatim>\<open>music_queues\<close> are never removed or replaced, so a handler that keeps the object in
  a local variable across an \<^verbatim>\<open>await\<close> still holds the guild's queue.
\<close>

definition the_queue :: "guild_id \<Rightarrow> Bot \<Rightarrow> MusicQueue" where
  "the_queue g b = (case music_queues b g of None \<Rightarrow> MusicQueue_init | Some q \<Rightarrow> q)"

definition set_queue :: "guild_id \<Rightarrow> MusicQueue \<Rightarrow> Bot \<Rightarrow> Bot" where
  "set_queue g q b = b\<lparr>music_queues := (music_queues b)(g \<mapsto> q)\<rparr>"

definition get_queue :: "guild_id \<Rightarrow> Bot \<Rightarrow> MusicQueue \<times> Bot" where
  "get_queue g b = (the_queue g b, set_queue g (the_queue g b) b)"

section \<open>The player\<close>

text \<open>
  Modelled from the spec: \<^verbatim>\<open>start\<close> begins streaming and triggers the completion
  callback on end or error, and \<^verbatim>\<open>stop\<close> forces the completion callback with no error.
  In the library's terms: \<^verbatim>\<open>voice_client.play(source, after=...)\<close> raises when there is
  no voice client (the call is on \<^verbatim>\<open>None\<close>) or when a player is already playing, and
  otherwise starts a player for the source; \<^verbatim>\<open>voice_client.stop()\<close> ends the player and
  forgets it, and \<^verbatim>\<open>disconnect()\<close> stops and then removes the voice client. When a
  player ends, by itself, by a playback error or by being stopped, the library calls
  \<^verbatim>\<open>after(e)\<close> once, with \<^verbatim>\<open>e = None\<close> unless playback failed; line 289 turns the call
  into a task of the event loop, which runs later.
\<close>

definition vc_play :: "guild_id \<Rightarrow> source_ref \<Rightarrow> Bot \<Rightarrow> error option \<times> Bot" where
  "vc_play g r b =
     (case voice_clients b g of
        None \<Rightarrow> (Some NoVoiceClient, b)
      | Some vc \<Rightarrow>
          if vc_playing vc then (Some AlreadyPlaying, b)
          else (None, b\<lparr>voice_clients :=
                  (voice_clients b)(g \<mapsto> \<lparr>vc_source = Some r, vc_playing = True\<rparr>)\<rparr>))"

definition vc_stop :: "guild_id \<Rightarrow> Bot \<Rightarrow> Bot" where
  "vc_stop g b =
     (case voice_clients b g of
        None \<Rightarrow> b
      | Some vc \<Rightarrow>
          b\<lparr>voice_clients := (voice_clients b)(g \<mapsto> \<lparr>vc_source = None, vc_playing = False\<rparr>),
            after_tasks := (after_tasks b)
              (g := after_tasks b g @ (if vc_playing vc then [None] else []))\<rparr>)"

definition vc_disconnect :: "guild_id \<Rightarrow> Bot \<Rightarrow> Bot" where
  "vc_disconnect g b = (let b1 = vc_stop g b in b1\<lparr>voice_clients := (voice_clients b1)(g := None)\<rparr>)"

text \<open>The stream of the playing source ends: by itself (\<open>e = None\<close>) or by an error.\<close>

definition track_ended :: "guild_id \<Rightarrow> string option \<Rightarrow> Bot \<Rightarrow> Bot" where
  "track_ended g e b =
     (case voice_clients b g of
        None \<Rightarrow> b
      | Some vc \<Rightarrow>
          if vc_playing vc
          then b\<lparr>voice_clients := (voice_clients b)(g \<mapsto> vc\<lparr>vc_playing := False\<rparr>),
                 after_tasks := (after_tasks b)(g := after_tasks b g @ [e])\<rparr>
          else b)"

section \<open>The commands of the cog (lines 200-411)\<close>

text \<open>
  Handlers are coroutines of one event loop: between two \<^verbatim>\<open>await\<close>s that really suspend
  nothing else runs. Each function below is one such piece. A function that can raise
  returns the exception together with the state the raise leaves behind.
  \<^verbatim>\<open>play_song\<close> (lines 282-302) sets \<^verbatim>\<open>current\<close>, starts the player and then formats
  the duration for its message; \<^verbatim>\<open>play_next\<close> (lines 304-313).
\<close>

definition source_duration :: "Bot \<Rightarrow> source_ref \<Rightarrow> number option" where
  "source_duration b r = (case sources b r of None \<Rightarrow> None | Some s \<Rightarrow> duration s)"

definition play_song :: "guild_id \<Rightarrow> source_ref \<Rightarrow> Bot \<Rightarrow> error option \<times> Bot" where
  "play_song g r b =
     (let (q, b1) = get_queue g b;
          b2 = set_queue g (q\<lparr>current := Some r\<rparr>) b1;
          (e, b3) = vc_play g r b2
      in case e of
           Some x \<Rightarrow> (Some x, b3)
         | None \<Rightarrow>
             (case format_duration (source_duration b3 r) of
                Inl x \<Rightarrow> (Some x, b3)
              | Inr duration_str \<Rightarrow> (None, send g (NowPlaying r duration_str) b3)))"

definition play_next :: "guild_id \<Rightarrow> Bot \<Rightarrow> error option \<times> Bot" where
  "play_next g b =
     (let (q, b1) = get_queue g b;
          q1 = (case current q of
                  Some c \<Rightarrow> if loop q then q\<lparr>queue := c # queue q\<rparr> else q
                | None \<Rightarrow> q)
      in case queue q1 of
           [] \<Rightarrow> (None, set_queue g q1 b1)
         | next_song # rest \<Rightarrow> play_song g next_song (set_queue g (q1\<lparr>queue := rest\<rparr>) b1))"

text \<open>The task made by the \<^verbatim>\<open>after\<close> callback (lines 289-291), and the loop running the oldest one.\<close>

definition after_task :: "guild_id \<Rightarrow> string option \<Rightarrow> Bot \<Rightarrow> Bot" where
  "after_task g e b =
     (case e of None \<Rightarrow> snd (play_next g b) | Some x \<Rightarrow> send g (PlayerError x) b)"

definition run_after :: "guild_id \<Rightarrow> Bot \<Rightarrow> Bot" where
  "run_after g b =
     (case after_tasks b g of
        [] \<Rightarrow> b
      | e # es \<Rightarrow> after_task g e (b\<lparr>after_tasks := (after_tasks b)(g := es)\<rparr>))"

text \<open>
  The pieces of \<^verbatim>\<open>play\<close> (lines 243-280) for a query on which the test of line 252 is
  false: lines 245-249 (\<open>play_enter\<close>, which every call of \<^verbatim>\<open>play\<close> starts with),
  lines 257-263 up to the call of \<^verbatim>\<open>create_source\<close> (\<open>play_connect\<close>; connecting registers
  the voice client at once, and an exception of \<^verbatim>\<open>connect\<close> or \<^verbatim>\<open>move_to\<close>, given by the
  caller, leaves none registered by a failed connect), and lines 263-280 from the moment
  \<^verbatim>\<open>create_source\<close> returns or raises (\<open>play_resolved\<close>). The first component of a
  result says whether \<^verbatim>\<open>play\<close> goes on. Whatever is raised inside the \<^verbatim>\<open>try\<close> of line 256
  is reported by the \<^verbatim>\<open>except\<close> of lines 279-280, also what \<^verbatim>\<open>format_duration\<close> raises
  after the source has been appended.
\<close>

definition play_enter :: "guild_id \<Rightarrow> bool \<Rightarrow> Bot \<Rightarrow> bool \<times> Bot" where
  "play_enter g author_voice b =
     (if \<not> author_voice then (False, send g NeedVoiceChannel b)
      else let (q, b1) = get_queue g b in (True, set_queue g (q\<lparr>processing := True\<rparr>) b1))"

definition play_connect :: "guild_id \<Rightarrow> string \<Rightarrow> string option \<Rightarrow> Bot \<Rightarrow> bool \<times> Bot" where
  "play_connect g query connect_error b =
     (case connect_error of
        Some x \<Rightarrow> (False, send g (ErrorOccurred (ConnectFailed x)) b)
      | None \<Rightarrow>
          (True,
           (case voice_clients b g of
              None \<Rightarrow> b\<lparr>voice_clients :=
                         (voice_clients b)(g \<mapsto> \<lparr>vc_source = None, vc_playing = False\<rparr>)\<rparr>
            | Some vc \<Rightarrow> b)
           \<lparr>resolve_calls := resolve_calls b @ [(g, query)]\<rparr>))"

definition play_resolved :: "guild_id \<Rightarrow> string + track_data \<Rightarrow> Bot \<Rightarrow> Bot" where
  "play_resolved g outcome b =
     (case outcome of
        Inl x \<Rightarrow> send g (ErrorOccurred (ResolveFailed x)) b
      | Inr d \<Rightarrow>
          (let source = next_ref b;
               b1 = b\<lparr>sources := (sources b)(source \<mapsto> YTDLSource_init d),
                       next_ref := Suc (next_ref b)\<rparr>
           in case voice_clients b1 g of
                None \<Rightarrow> send g (ErrorOccurred NoVoiceClient) b1
              | Some vc \<Rightarrow>
                  if vc_playing vc
                  then let (q, b2) = get_queue g b1;
                           b3 = set_queue g (q\<lparr>queue := queue q @ [source]\<rparr>) b2
                       in (case format_duration (data_duration d) of
                             Inl x \<Rightarrow> send g (ErrorOccurred x) b3
                           | Inr duration_str \<Rightarrow> send g (AddedToQueue source duration_str) b3)
                  else (case play_song g source b1 of
                          (Some x, b2) \<Rightarrow> send g (ErrorOccurred x) b2
                        | (None, b2) \<Rightarrow> b2)))"

text \<open>
  \<^verbatim>\<open>show_queue\<close> (lines 315-347). The durations of the current source and then of the
  sources of the deque are formatted in order; when one of them raises, the handler
  ends there and sends nothing.
\<close>

fun format_all :: "Bot \<Rightarrow> source_ref list \<Rightarrow> error + (source_ref \<times> string) list" where
  "format_all b [] = Inr []"
| "format_all b (r # rs) =
     (case format_duration (source_duration b r) of
        Inl x \<Rightarrow> Inl x
      | Inr duration_str \<Rightarrow>
          (case format_all b rs of Inl x \<Rightarrow> Inl x | Inr rest \<Rightarrow> Inr ((r, duration_str) # rest)))"

definition show_queue :: "guild_id \<Rightarrow> Bot \<Rightarrow> Bot" where
  "show_queue g b =
     (let (q, b1) = get_queue g b
      in if current q = None \<and> queue q = [] then send g QueueEmpty b1
         else (case format_all b1 (case current q of None \<Rightarrow> [] | Some c \<Rightarrow> [c]) of
                 Inl x \<Rightarrow> b1
               | Inr now \<Rightarrow>
                   (case format_all b1 (queue q) of
                      Inl x \<Rightarrow> b1
                    | Inr up_next \<Rightarrow>
                        send g (QueueShown (case now of [] \<Rightarrow> None | n # _ \<Rightarrow> Some n) up_next) b1)))"

text \<open>\<^verbatim>\<open>toggle_loop\<close> (lines 349-354).\<close>

definition toggle_loop :: "guild_id \<Rightarrow> Bot \<Rightarrow> Bot" where
  "toggle_loop g b =
     (let (q, b1) = get_queue g b
      in send g (LoopMode (\<not> loop q)) (set_queue g (q\<lparr>loop := \<not> loop q\<rparr>) b1))"

text \<open>
  \<^verbatim>\<open>volume\<close> (lines 356-366); the command's argument is an \<^verbatim>\<open>int\<close>. The name of the
  field of \<^verbatim>\<open>MusicQueue\<close> being taken, the command is \<open>volume_command\<close>.
\<close>

definition volume_command :: "guild_id \<Rightarrow> int \<Rightarrow> Bot \<Rightarrow> Bot" where
  "volume_command g pct b =
     (if \<not> (0 \<le> pct \<and> pct \<le> 200) then send g VolumeOutOfRange b
      else case voice_clients b g of
             None \<Rightarrow> send g NotPlayingAudio b
           | Some vc \<Rightarrow>
               (case vc_source vc of
                  None \<Rightarrow> send g NotPlayingAudio b
                | Some r \<Rightarrow>
                    send g (VolumeSet pct)
                      (b\<lparr>sources := (sources b)(r := map_option
                           (\<lambda>s. s\<lparr>source_volume := of_int pct / 100\<rparr>) (sources b r))\<rparr>)))"

text \<open>\<^verbatim>\<open>clear\<close> (lines 368-373), \<^verbatim>\<open>stop\<close> (lines 375-383), \<^verbatim>\<open>disconnect\<close> (lines 385-393).\<close>

definition clear :: "guild_id \<Rightarrow> Bot \<Rightarrow> Bot" where
  "clear g b = (let (q, b1) = get_queue g b in send g QueueCleared (set_queue g (q\<lparr>queue := []\<rparr>) b1))"

definition stop :: "guild_id \<Rightarrow> Bot \<Rightarrow> Bot" where
  "stop g b =
     (let (q, b1) = get_queue g b;
          b2 = set_queue g (q\<lparr>processing := False, queue := []\<rparr>) b1
      in send g StoppedPlaying (vc_stop g b2))"

definition disconnect :: "guild_id \<Rightarrow> Bot \<Rightarrow> Bot" where
  "disconnect g b =
     (let (q, b1) = get_queue g b;
          b2 = set_queue g (q\<lparr>processing := False, queue := []\<rparr>) b1
      in case voice_clients b2 g of
           None \<Rightarrow> b2
         | Some vc \<Rightarrow> send g Disconnected (vc_disconnect g b2))"

text \<open>
  \<^verbatim>\<open>skip\<close> (lines 395-411). An exception of \<^verbatim>\<open>play_next\<close> leaves the handler; the state
  is the one the raise left behind.
\<close>

definition skip :: "guild_id \<Rightarrow> Bot \<Rightarrow> Bot" where
  "skip g b =
     (if (case voice_clients b g of None \<Rightarrow> True | Some vc \<Rightarrow> \<not> vc_playing vc)
      then send g NoSongPlaying b
      else let (q, b1) = get_queue g b;
               b2 = vc_stop g b1
           in if queue q \<noteq> [] then snd (play_next g b2)
              else send g NoMoreSongs (set_queue g (q\<lparr>current := None\<rparr>) b2))"

section \<open>The idle monitor (lines 107-131)\<close>

text \<open>
  \<^verbatim>\<open>on_voice_state_update\<close> in two pieces, before and after the sleep. \<open>humans\<close> is the
  number of members of the bot's channel that are not bots, counted at line 115 and
  again at line 122. The second piece runs when a sleeping handler wakes up; when the
  guild has no voice client any more, its call of \<^verbatim>\<open>disconnect\<close> on \<^verbatim>\<open>None\<close> raises after
  the queue has been cleaned up. The final \<^verbatim>\<open>logger.info\<close> writes no state.
\<close>

definition on_voice_state_update :: "guild_id \<Rightarrow> nat \<Rightarrow> Bot \<Rightarrow> Bot" where
  "on_voice_state_update g humans b =
     (case voice_clients b g of
        None \<Rightarrow> b
      | Some vc \<Rightarrow> if humans = 0 then b\<lparr>sleepers := (sleepers b)(g := Suc (sleepers b g))\<rparr> else b)"

definition on_voice_state_update_wake :: "guild_id \<Rightarrow> nat \<Rightarrow> Bot \<Rightarrow> Bot" where
  "on_voice_state_update_wake g humans b =
     (if sleepers b g = 0 then b
      else let b1 = b\<lparr>sleepers := (sleepers b)(g := sleepers b g - 1)\<rparr>
           in if humans = 0
              then let b2 = (case music_queues b1 g of
                               None \<Rightarrow> b1
                             | Some q \<Rightarrow> set_queue g (q\<lparr>processing := False, queue := []\<rparr>) b1)
                   in vc_disconnect g b2
              else b1)"

section \<open>Runs\<close>

text \<open>
  A step is one piece of a handler, or an event of the player. Any execution of the bot
  is a sequence of steps, since the pieces do not interleave.
\<close>

datatype step =
    PlayEnter guild_id bool
  | PlayConnect guild_id string "string option"
  | PlayResolved guild_id "string + track_data"
  | TrackEnded guild_id "string option"
  | RunAfter guild_id
  | ShowQueue guild_id
  | ToggleLoop guild_id
  | Volume guild_id int
  | Clear guild_id
  | Stop guild_id
  | Disconnect guild_id
  | Skip guild_id
  | VoiceUpdate guild_id nat
  | GraceExpired guild_id nat

fun exec_step :: "step \<Rightarrow> Bot \<Rightarrow> Bot" where
  "exec_step (PlayEnter g author_voice) b = snd (play_enter g author_voice b)"
| "exec_step (PlayConnect g query connect_error) b = snd (play_connect g query connect_error b)"
| "exec_step (PlayResolved g outcome) b = play_resolved g outcome b"
| "exec_step (TrackEnded g e) b = track_ended g e b"
| "exec_step (RunAfter g) b = run_after g b"
| "exec_step (ShowQueue g) b = show_queue g b"
| "exec_step (ToggleLoop g) b = toggle_loop g b"
| "exec_step (Volume g pct) b = volume_command g pct b"
| "exec_step (Clear g) b = clear g b"
| "exec_step (Stop g) b = stop g b"
| "exec_step (Disconnect g) b = disconnect g b"
| "exec_step (Skip g) b = skip g b"
| "exec_step (VoiceUpdate g humans) b = on_voice_state_update g humans b"
| "exec_step (GraceExpired g humans) b = on_voice_state_update_wake g humans b"

fun run :: "step list \<Rightarrow> Bot \<Rightarrow> Bot" where
  "run [] b = b"
| "run (s # ss) b = run ss (exec_step s b)"

text \<open>
  A whole call of \<^verbatim>\<open>play\<close> (lines 243-280), with a script that gives what the outside
  does during the call. Every script says whether the author is in a voice channel
  (line 245) and which steps of other handlers run while the call waits in its last
  \<^verbatim>\<open>ctx.send\<close> (\<open>after\<close>). The test of line 252, \<^verbatim>\<open>is_spotify_url(query)\<close>, which stands
  before the \<^verbatim>\<open>try\<close> of line 256, has three outcomes, one for each kind of script:
  \<^item> \<open>PlayScript\<close>: the test is false. The script gives the exception of connecting if
    any, the steps that run while the call waits for \<^verbatim>\<open>create_source\<close> (\<open>during\<close>), and
    what \<^verbatim>\<open>create_source\<close> does (\<open>outcome\<close>).
  \<^item> \<open>UrlRaises\<close>: \<^verbatim>\<open>urlparse\<close> raises \<^verbatim>\<open>ValueError\<close> on the query, and so does \<^verbatim>\<open>play\<close>.
  \<^item> \<open>SpotifyScript\<close>: the test is true and \<^verbatim>\<open>process_spotify_url\<close> runs on the query.
    The script gives what the Spotify client does for the URL: it raises, or returns
    the tracks (one for \<^verbatim>\<open>get_track_info\<close>), each with its title, its artist and the
    script of the call of \<^verbatim>\<open>play\<close> made for it, whose query is \<^verbatim>\<open>f"{title} {artist}"\<close>.
  \<^verbatim>\<open>process_spotify_url\<close> (lines 211-240) catches what a call of \<^verbatim>\<open>play\<close> inside it
  raises, reports it and ends; \<open>process_tracks\<close> is the loop of lines 222-226 and
  230-234, and its first component is the exception that left it. \<open>contains\<close> is
  Python's \<^verbatim>\<open>in\<close> on strings.
\<close>

datatype play_script =
    PlayScript (author_voice: bool) (connect_error: "string option") (during: "step list")
      (outcome: "string + track_data") (after: "step list")
  | UrlRaises (author_voice: bool) (url_error: string) (after: "step list")
  | SpotifyScript (author_voice: bool) (api: "string + (string \<times> string \<times> play_script) list")
      (after: "step list")

type_synonym sub_item = "string \<times> string \<times> play_script"

fun contains :: "string \<Rightarrow> string \<Rightarrow> bool" where
  "contains sub [] = (sub = [])"
| "contains sub (c # cs) = (take (length sub) (c # cs) = sub \<or> contains sub cs)"

function play :: "guild_id \<Rightarrow> string \<Rightarrow> play_script \<Rightarrow> Bot \<Rightarrow> error option \<times> Bot"
  and process_tracks :: "guild_id \<Rightarrow> string \<Rightarrow> sub_item list \<Rightarrow> Bot \<Rightarrow> error option \<times> Bot"
  and process_spotify_url :: "guild_id \<Rightarrow> string \<Rightarrow> string + sub_item list \<Rightarrow> Bot \<Rightarrow> Bot"
where
  "play g query (PlayScript in_voice cerr du oc af) b =
     (case play_enter g in_voice b of
        (False, b1) \<Rightarrow> (None, run af b1)
      | (True, b1) \<Rightarrow>
          (case play_connect g query cerr b1 of
             (False, b2) \<Rightarrow> (None, run af b2)
           | (True, b2) \<Rightarrow> (None, run af (play_resolved g oc (run du b2)))))"
| "play g query (UrlRaises in_voice x af) b =
     (case play_enter g in_voice b of
        (False, b1) \<Rightarrow> (None, run af b1)
      | (True, b1) \<Rightarrow> (Some (ValueError x), b1))"
| "play g query (SpotifyScript in_voice result af) b =
     (case play_enter g in_voice b of
        (False, b1) \<Rightarrow> (None, run af b1)
      | (True, b1) \<Rightarrow> (None, run af (process_spotify_url g query result b1)))"
| "process_tracks g kind [] b = (None, b)"
| "process_tracks g kind ((track_title, artist, sc) # ts) b =
     (if \<not> processing (the_queue g b) then (None, send g (StoppedProcessing kind) b)
      else (case play g (track_title @ '' '' @ artist) sc b of
              (Some e, b1) \<Rightarrow> (Some e, b1)
            | (None, b1) \<Rightarrow> process_tracks g kind ts b1))"
| "process_spotify_url g url (Inl x) b =
     (let (q, b1) = get_queue g b
      in if contains ''track'' url \<or> contains ''playlist'' url \<or> contains ''album'' url
         then send g (SpotifyError (ApiFailed x)) b1
         else send g InvalidSpotifyUrl b1)"
| "process_spotify_url g url (Inr []) b =
     (let (q, b1) = get_queue g b
      in if contains ''track'' url \<or> contains ''playlist'' url \<or> contains ''album'' url
         then b1
         else send g InvalidSpotifyUrl b1)"
| "process_spotify_url g url (Inr ((track_title, artist, sc) # ts)) b =
     (let (q, b1) = get_queue g b
      in if contains ''track'' url then
           (if processing (the_queue g b1)
            then (case play g (track_title @ '' '' @ artist) sc b1 of
                    (Some e, b2) \<Rightarrow> send g (SpotifyError e) b2
                  | (None, b2) \<Rightarrow> b2)
            else b1)
         else if contains ''playlist'' url then
           (case process_tracks g ''playlist'' ((track_title, artist, sc) # ts) b1 of
              (Some e, b2) \<Rightarrow> send g (SpotifyError e) b2
            | (None, b2) \<Rightarrow> b2)
         else if contains ''album'' url then
           (case process_tracks g ''album'' ((track_title, artist, sc) # ts) b1 of
              (Some e, b2) \<Rightarrow> send g (SpotifyError e) b2
            | (None, b2) \<Rightarrow> b2)
         else send g InvalidSpotifyUrl b1)"
  by pat_completeness auto


termination
  by (relation "measure (\<lambda>x. case x of
        Inl (g, query, sc, b) \<Rightarrow> size sc
      | Inr (Inl (g, kind, ts, b)) \<Rightarrow> size_list (size_prod (\<lambda>_. 0) (size_prod (\<lambda>_. 0) size)) ts
      | Inr (Inr (g, url, result, b)) \<Rightarrow>
          size_sum (\<lambda>_. 0) (size_list (size_prod (\<lambda>_. 0) (size_prod (\<lambda>_. 0) size))) result)")
    auto


text \<open>
  An operation is a step or a whole call of \<^verbatim>\<open>play\<close>; an exception that leaves a
  handler is dropped, with the state it left behind.
\<close>

datatype operation =
    Atomic step
  | Play guild_id string play_script

fun exec_operation :: "operation \<Rightarrow> Bot \<Rightarrow> Bot" where
  "exec_operation (Atomic s) b = exec_step s b"
| "exec_operation (Play g query sc) b = snd (play g query sc b)"

fun run_operations :: "operation list \<Rightarrow> Bot \<Rightarrow> Bot" where
  "run_operations [] b = b"
| "run_operations (x # xs) b = run_operations xs (exec_operation x b)"

section \<open>Scenarios and notions used in the statements\<close>

text \<open>
  Two tracks, a script in which nothing else happens during the call and the author is
  in a voice channel, and a guild (number 7) in which the first track plays and the
  second is pending.
\<close>

definition song_a :: track_data where
  "song_a = \<lparr>data_title = ''A'', data_uploader = ''u'', data_duration = Some (PyInt 3725),
     data_thumbnail = None\<rparr>"

definition song_b :: track_data where
  "song_b = \<lparr>data_title = ''B'', data_uploader = ''v'', data_duration = None, data_thumbnail = None\<rparr>"

definition quiet_script :: "string + track_data \<Rightarrow> play_script" where
  "quiet_script oc = PlayScript True None [] oc []"

definition playing_two :: Bot where
  "playing_two = run_operations
     [Play 7 ''song a'' (quiet_script (Inr song_a)), Play 7 ''song b'' (quiet_script (Inr song_b))] Bot_init"

text \<open>A script in which \<^verbatim>\<open>stop\<close> runs while the call waits in its final \<^verbatim>\<open>ctx.send\<close>.\<close>

definition stop_script :: "string + track_data \<Rightarrow> play_script" where
  "stop_script oc = PlayScript True None [] oc [Stop 7]"

definition five_items :: "sub_item list" where
  "five_items =
     [(''one'', ''x'', quiet_script (Inr song_a)), (''two'', ''x'', stop_script (Inr song_b)),
      (''three'', ''x'', quiet_script (Inr song_a)), (''four'', ''x'', quiet_script (Inr song_b)),
      (''five'', ''x'', quiet_script (Inr song_a))]"

definition three_items :: "sub_item list" where
  "three_items =
     [(''one'', ''x'', quiet_script (Inr song_a)), (''two'', ''x'', quiet_script (Inl ''not found'')),
      (''three'', ''x'', quiet_script (Inr song_b))]"

text \<open>
  A queue is well formed up to \<open>n\<close> when its deque holds no reference twice, holds only
  references below \<open>n\<close>, and does not hold the current one.
\<close>

definition queue_wf :: "nat \<Rightarrow> MusicQueue \<Rightarrow> bool" where
  "queue_wf n q \<longleftrightarrow>
     distinct (queue q) \<and> (\<forall>r \<in> set (queue q). r < n) \<and>
     (\<forall>c. current q = Some c \<longrightarrow> c \<notin> set (queue q) \<and> c < n)"

definition bot_wf :: "Bot \<Rightarrow> bool" where
  "bot_wf b \<longleftrightarrow> (\<forall>g q. music_queues b g = Some q \<longrightarrow> queue_wf (next_ref b) q)"

text \<open>
  The call of \<^verbatim>\<open>play\<close> that the loop makes for a track is \<open>play_sub\<close>.
  \<open>processed g ts b\<close> is the state in which the loop over a catalogue, started in \<open>b\<close>,
  has gone through the tracks \<open>ts\<close>: before each of them it found \<^verbatim>\<open>queue.processing\<close>
  true and the call of \<^verbatim>\<open>play\<close> for it returned; it is \<open>None\<close> when the loop ends
  before. \<open>at_resolution g t b\<close> is the state in which \<^verbatim>\<open>create_source\<close> returns or
  raises in the call of \<^verbatim>\<open>play\<close> for the track \<open>t\<close>, started in \<open>b\<close>; it is \<open>None\<close> when
  that call does not get to \<^verbatim>\<open>create_source\<close>.
\<close>

definition sub_query :: "sub_item \<Rightarrow> string" where
  "sub_query t = fst t @ '' '' @ fst (snd t)"

definition play_sub :: "guild_id \<Rightarrow> sub_item \<Rightarrow> Bot \<Rightarrow> error option \<times> Bot" where
  "play_sub g t b = play g (sub_query t) (snd (snd t)) b"

fun processed :: "guild_id \<Rightarrow> sub_item list \<Rightarrow> Bot \<Rightarrow> Bot option" where
  "processed g [] b = Some b"
| "processed g (t # ts) b =
     (if \<not> processing (the_queue g b) then None
      else (case play_sub g t b of (Some e, b1) \<Rightarrow> None | (None, b1) \<Rightarrow> processed g ts b1))"

definition at_resolution :: "guild_id \<Rightarrow> sub_item \<Rightarrow> Bot \<Rightarrow> Bot option" where
  "at_resolution g t b =
     (case snd (snd t) of
        PlayScript in_voice cerr du oc af \<Rightarrow>
          (case play_enter g in_voice b of
             (False, b1) \<Rightarrow> None
           | (True, b1) \<Rightarrow>
               (case play_connect g (sub_query t) cerr b1 of
                  (False, b2) \<Rightarrow> None
                | (True, b2) \<Rightarrow> Some (run du b2)))
      | UrlRaises in_voice x af \<Rightarrow> None
      | SpotifyScript in_voice result af \<Rightarrow> None)"

text \<open>
  \<open>is_playing\<close> is \<^verbatim>\<open>voice_client.is_playing()\<close> on a voice client that may be \<^verbatim>\<open>None\<close>,
  and \<open>reached\<close> the references held by the deque or by \<^verbatim>\<open>current\<close>.
\<close>

definition is_playing :: "guild_id \<Rightarrow> Bot \<Rightarrow> bool" where
  "is_playing g b = (case voice_clients b g of None \<Rightarrow> False | Some vc \<Rightarrow> vc_playing vc)"

definition reached :: "guild_id \<Rightarrow> Bot \<Rightarrow> source_ref set" where
  "reached g b = set (queue (the_queue g b)) \<union> set_option (current (the_queue g b))"

text \<open>
  States of the guild while such a catalogue is processed from the start of the bot:
  after the call of \<^verbatim>\<open>play\<close> for the first track, at the moment \<^verbatim>\<open>create_source\<close> returns
  or raises for the second track (whose query is \<open>two x\<close> in both catalogues), and
  after the call for the second track of \<open>five_items\<close>. In \<open>broken_items\<close> the title of
  the second track makes \<^verbatim>\<open>urlparse\<close> raise.
\<close>

definition after_one :: Bot where
  "after_one = snd (play_sub 7 (five_items ! 0) Bot_init)"

definition resolving_two :: Bot where
  "resolving_two = snd (play_connect 7 ''two x'' None (snd (play_enter 7 True after_one)))"

definition after_two :: Bot where
  "after_two = snd (play_sub 7 (five_items ! 1) after_one)"

definition broken_items :: "sub_item list" where
  "broken_items =
     [(''one'', ''x'', quiet_script (Inr song_a)), (''//[live'', ''x'', UrlRaises True ''Invalid IPv6 URL'' []),
      (''three'', ''x'', quiet_script (Inr song_b))]"

section \<open>Reading the state after a piece of a handler\<close>



lemma send_simps [simp]:
  "music_queues (send g m b) = music_queues b"
  "voice_clients (send g m b) = voice_clients b"
  "sources (send g m b) = sources b"
  "next_ref (send g m b) = next_ref b"
  "after_tasks (send g m b) = after_tasks b"
  "sleepers (send g m b) = sleepers b"
  "resolve_calls (send g m b) = resolve_calls b"
  "sent (send g m b) = sent b @ [(g, m)]"
  by (simp_all add: send_def)

lemma set_queue_simps [simp]:
  "music_queues (set_queue g q b) = (music_queues b)(g \<mapsto> q)"
  "voice_clients (set_queue g q b) = voice_clients b"
  "sources (set_queue g q b) = sources b"
  "next_ref (set_queue g q b) = next_ref b"
  "after_tasks (set_queue g q b) = after_tasks b"
  "sleepers (set_queue g q b) = sleepers b"
  "resolve_calls (set_queue g q b) = resolve_calls b"
  "sent (set_queue g q b) = sent b"
  by (simp_all add: set_queue_def)

lemma the_queue_simps [simp]:
  "the_queue g (send g' m b) = the_queue g b"
  "the_queue g (set_queue g q b) = q"
  "g \<noteq> g' \<Longrightarrow> the_queue g (set_queue g' q b) = the_queue g b"
  by (simp_all add: the_queue_def)

lemma set_queue_set_queue [simp]: "set_queue g q (set_queue g q' b) = set_queue g q b"
  by (simp add: set_queue_def)

lemma vc_stop_simps [simp]:
  "music_queues (vc_stop g b) = music_queues b"
  "sources (vc_stop g b) = sources b"
  "next_ref (vc_stop g b) = next_ref b"
  "sleepers (vc_stop g b) = sleepers b"
  "resolve_calls (vc_stop g b) = resolve_calls b"
  "sent (vc_stop g b) = sent b"
  "the_queue g' (vc_stop g b) = the_queue g' b"
  by (simp_all add: vc_stop_def the_queue_def split: option.splits)

lemma vc_disconnect_simps [simp]:
  "music_queues (vc_disconnect g b) = music_queues b"
  "sources (vc_disconnect g b) = sources b"
  "next_ref (vc_disconnect g b) = next_ref b"
  "sleepers (vc_disconnect g b) = sleepers b"
  "resolve_calls (vc_disconnect g b) = resolve_calls b"
  "sent (vc_disconnect g b) = sent b"
  "the_queue g' (vc_disconnect g b) = the_queue g' b"
  "voice_clients (vc_disconnect g b) g = None"
  by (simp_all add: vc_disconnect_def Let_def the_queue_def)

lemma vc_play_simps [simp]:
  "music_queues (snd (vc_play g r b)) = music_queues b"
  "sources (snd (vc_play g r b)) = sources b"
  "next_ref (snd (vc_play g r b)) = next_ref b"
  "after_tasks (snd (vc_play g r b)) = after_tasks b"
  "sleepers (snd (vc_play g r b)) = sleepers b"
  "resolve_calls (snd (vc_play g r b)) = resolve_calls b"
  "sent (snd (vc_play g r b)) = sent b"
  "the_queue g' (snd (vc_play g r b)) = the_queue g' b"
  by (simp_all add: vc_play_def the_queue_def split: option.splits)

lemma bot_wf_frame:
  "music_queues b' = music_queues b \<Longrightarrow> next_ref b' = next_ref b \<Longrightarrow> bot_wf b' = bot_wf b"
  by (simp add: bot_wf_def)

lemma queue_wf_init [simp]: "queue_wf n MusicQueue_init"
  by (simp add: queue_wf_def MusicQueue_init_def)

lemma bot_wf_the_queue: "bot_wf b \<Longrightarrow> queue_wf (next_ref b) (the_queue g b)"
  by (simp add: bot_wf_def the_queue_def split: option.splits)

lemma bot_wf_set_queue: "bot_wf b \<Longrightarrow> queue_wf (next_ref b) q \<Longrightarrow> bot_wf (set_queue g q b)"
  by (simp add: bot_wf_def)

lemma queue_wf_fields [simp]:
  "queue_wf n (q\<lparr>processing := p\<rparr>) = queue_wf n q"
  "queue_wf n (q\<lparr>loop := l\<rparr>) = queue_wf n q"
  "queue_wf n q \<Longrightarrow> queue_wf n (q\<lparr>queue := []\<rparr>)"
  "queue_wf n q \<Longrightarrow> queue_wf n (q\<lparr>current := None\<rparr>)"
  by (simp_all add: queue_wf_def)

lemma case_error_prod:
  "(case p of (None, b) \<Rightarrow> h b | (Some x, b) \<Rightarrow> f x b) =
     (case fst p of None \<Rightarrow> h (snd p) | Some x \<Rightarrow> f x (snd p))"
  by (cases p) (simp split: option.splits)

lemma case_bool_prod:
  "(case p of (True, b) \<Rightarrow> h b | (False, b) \<Rightarrow> f b) = (if fst p then h (snd p) else f (snd p))"
  by (cases p) simp

lemma bot_wf_updates [simp]:
  "bot_wf (b\<lparr>voice_clients := v\<rparr>) = bot_wf b"
  "bot_wf (b\<lparr>sources := s\<rparr>) = bot_wf b"
  "bot_wf (b\<lparr>after_tasks := t\<rparr>) = bot_wf b"
  "bot_wf (b\<lparr>sleepers := k\<rparr>) = bot_wf b"
  "bot_wf (b\<lparr>sent := m\<rparr>) = bot_wf b"
  "bot_wf (b\<lparr>resolve_calls := c\<rparr>) = bot_wf b"
  by (simp_all add: bot_wf_def)

lemma bot_wf_send [simp]: "bot_wf (send g m b) = bot_wf b"
  by (rule bot_wf_frame) simp_all

lemma bot_wf_vc_stop [simp]: "bot_wf (vc_stop g b) = bot_wf b"
  by (rule bot_wf_frame) simp_all

lemma bot_wf_vc_disconnect [simp]: "bot_wf (vc_disconnect g b) = bot_wf b"
  by (rule bot_wf_frame) simp_all

lemma bot_wf_vc_play [simp]: "bot_wf (snd (vc_play g r b)) = bot_wf b"
  by (rule bot_wf_frame) simp_all

lemma play_song_simps [simp]:
  "music_queues (snd (play_song g r b)) = (music_queues b)(g \<mapsto> (the_queue g b)\<lparr>current := Some r\<rparr>)"
  "next_ref (snd (play_song g r b)) = next_ref b"
  "sources (snd (play_song g r b)) = sources b"
  "after_tasks (snd (play_song g r b)) = after_tasks b"
  "sleepers (snd (play_song g r b)) = sleepers b"
  "resolve_calls (snd (play_song g r b)) = resolve_calls b"
  by (simp_all add: play_song_def get_queue_def Let_def case_prod_beta split: option.splits sum.splits)

lemma play_song_wf:
  assumes "bot_wf b" "r \<notin> set (queue (the_queue g b))" "r < next_ref b"
  shows "bot_wf (snd (play_song g r b))"
proof -
  have "queue_wf (next_ref b) ((the_queue g b)\<lparr>current := Some r\<rparr>)"
    using bot_wf_the_queue [OF assms(1), of g] assms(2,3) by (simp add: queue_wf_def)
  then have "bot_wf (set_queue g ((the_queue g b)\<lparr>current := Some r\<rparr>) b)"
    using assms(1) by (simp add: bot_wf_set_queue)
  moreover have "bot_wf (snd (play_song g r b)) = bot_wf (set_queue g ((the_queue g b)\<lparr>current := Some r\<rparr>) b)"
    by (rule bot_wf_frame) simp_all
  ultimately show ?thesis
    by simp
qed

lemma play_next_wf:
  assumes "bot_wf b"
  shows "bot_wf (snd (play_next g b))"
proof -
  let ?q = "the_queue g b"
  have wf: "queue_wf (next_ref b) ?q"
    using assms by (rule bot_wf_the_queue)
  show ?thesis
  proof (cases "loop ?q \<and> current ?q \<noteq> None")
    case True
    then obtain c where c: "current ?q = Some c" by auto
    with wf have "bot_wf (set_queue g ?q b)" "c \<notin> set (queue ?q)" "c < next_ref b"
      using assms by (simp_all add: bot_wf_set_queue queue_wf_def)
    then have "bot_wf (snd (play_song g c (set_queue g ?q b)))"
      by (intro play_song_wf) simp_all
    with True c show ?thesis
      by (simp add: play_next_def get_queue_def)
  next
    case False
    show ?thesis
    proof (cases "queue ?q")
      case Nil
      with False wf assms show ?thesis
        by (auto simp add: play_next_def get_queue_def bot_wf_set_queue split: option.splits)
    next
      case (Cons r rest)
      with wf have "queue_wf (next_ref b) (?q\<lparr>queue := rest\<rparr>)" "r \<notin> set rest" "r < next_ref b"
        by (auto simp add: queue_wf_def split: option.splits)
      then have "bot_wf (snd (play_song g r (set_queue g (?q\<lparr>queue := rest\<rparr>) b)))"
        using assms by (intro play_song_wf) (simp_all add: bot_wf_set_queue)
      with False Cons show ?thesis
        by (auto simp add: play_next_def get_queue_def split: option.splits)
    qed
  qed
qed

lemma play_enter_wf: "bot_wf b \<Longrightarrow> bot_wf (snd (play_enter g v b))"
  by (simp add: play_enter_def get_queue_def bot_wf_set_queue bot_wf_the_queue)

lemma play_connect_wf: "bot_wf b \<Longrightarrow> bot_wf (snd (play_connect g query ce b))"
  by (simp add: play_connect_def bot_wf_def split: option.splits)

lemma queue_wf_mono: "queue_wf n q \<Longrightarrow> n \<le> n' \<Longrightarrow> queue_wf n' q"
  by (fastforce simp add: queue_wf_def split: option.splits)

lemma play_resolved_wf:
  assumes "bot_wf b"
  shows "bot_wf (play_resolved g oc b)"
proof (cases oc)
  case (Inl x)
  with assms show ?thesis by (simp add: play_resolved_def)
next
  case (Inr d)
  define b1 where "b1 = b\<lparr>sources := (sources b)(next_ref b \<mapsto> YTDLSource_init d),
                       next_ref := Suc (next_ref b)\<rparr>"
  have b1: "bot_wf b1" "next_ref b1 = Suc (next_ref b)" "the_queue g b1 = the_queue g b"
    using assms queue_wf_mono [of "next_ref b" _ "Suc (next_ref b)"]
    by (auto simp add: b1_def bot_wf_def the_queue_def)
  have fresh: "next_ref b \<notin> set (queue (the_queue g b1))"
    using bot_wf_the_queue [OF assms, of g] b1(3) by (auto simp add: queue_wf_def)
  have app: "queue_wf (next_ref b1) ((the_queue g b1)\<lparr>queue := queue (the_queue g b1) @ [next_ref b]\<rparr>)"
    using bot_wf_the_queue [OF assms, of g] b1(2,3)
    by (auto simp add: queue_wf_def split: option.splits)
  have song: "bot_wf (snd (play_song g (next_ref b) b1))"
    using b1 fresh by (intro play_song_wf) simp_all
  show ?thesis
    using Inr b1(1) app song
    by (simp add: play_resolved_def Let_def b1_def [symmetric] get_queue_def bot_wf_set_queue
        case_error_prod split: option.splits sum.splits)
qed

lemma track_ended_wf: "bot_wf b \<Longrightarrow> bot_wf (track_ended g e b)"
  by (simp add: track_ended_def bot_wf_def split: option.splits)

lemma run_after_wf: "bot_wf b \<Longrightarrow> bot_wf (run_after g b)"
proof -
  assume wf: "bot_wf b"
  have "bot_wf (b\<lparr>after_tasks := t\<rparr>)" for t
    using wf by (simp add: bot_wf_def)
  with wf show ?thesis
    by (simp add: run_after_def after_task_def play_next_wf split: list.splits option.splits)
qed

lemma show_queue_wf: "bot_wf b \<Longrightarrow> bot_wf (show_queue g b)"
  by (simp add: Let_def show_queue_def get_queue_def bot_wf_set_queue bot_wf_the_queue
      split: option.splits sum.splits)

lemma toggle_loop_wf: "bot_wf b \<Longrightarrow> bot_wf (toggle_loop g b)"
  by (simp add: Let_def toggle_loop_def get_queue_def bot_wf_set_queue bot_wf_the_queue split: option.splits)

lemma volume_command_wf: "bot_wf b \<Longrightarrow> bot_wf (volume_command g pct b)"
  by (simp add: volume_command_def bot_wf_def split: option.splits)

lemma clear_wf: "bot_wf b \<Longrightarrow> bot_wf (clear g b)"
  by (simp add: Let_def clear_def get_queue_def bot_wf_set_queue bot_wf_the_queue split: option.splits)

lemma stop_wf: "bot_wf b \<Longrightarrow> bot_wf (stop g b)"
  by (simp add: Let_def stop_def get_queue_def bot_wf_set_queue bot_wf_the_queue split: option.splits)

lemma disconnect_wf: "bot_wf b \<Longrightarrow> bot_wf (disconnect g b)"
  by (simp add: Let_def disconnect_def get_queue_def bot_wf_set_queue bot_wf_the_queue split: option.splits)

lemma skip_wf:
  assumes "bot_wf b"
  shows "bot_wf (skip g b)"
proof -
  have 1: "bot_wf (vc_stop g (set_queue g (the_queue g b) b))"
    using assms bot_wf_the_queue [of b g] by (simp add: bot_wf_set_queue)
  then have 2: "bot_wf (snd (play_next g (vc_stop g (set_queue g (the_queue g b) b))))"
    by (rule play_next_wf)
  have 3: "bot_wf (set_queue g ((the_queue g b)\<lparr>current := None\<rparr>) (vc_stop g (set_queue g (the_queue g b) b)))"
    using 1 bot_wf_the_queue [OF assms, of g] by (intro bot_wf_set_queue) simp_all
  show ?thesis
    using assms 2 3 by (simp add: skip_def get_queue_def Let_def)
qed

lemma on_voice_state_update_wf: "bot_wf b \<Longrightarrow> bot_wf (on_voice_state_update g h b)"
  by (simp add: on_voice_state_update_def bot_wf_def split: option.splits)

lemma on_voice_state_update_wake_wf:
  assumes "bot_wf b"
  shows "bot_wf (on_voice_state_update_wake g h b)"
proof -
  have "queue_wf (next_ref b) (q\<lparr>processing := False, queue := []\<rparr>)" if "music_queues b g = Some q" for q
    using assms that by (simp add: bot_wf_def)
  with assms show ?thesis
    by (simp add: on_voice_state_update_wake_def Let_def bot_wf_set_queue split: option.splits)
qed

lemma exec_step_wf: "bot_wf b \<Longrightarrow> bot_wf (exec_step s b)"
  by (cases s)
    (simp_all add: play_enter_wf play_connect_wf play_resolved_wf track_ended_wf run_after_wf
      show_queue_wf toggle_loop_wf volume_command_wf clear_wf stop_wf disconnect_wf skip_wf
      on_voice_state_update_wf on_voice_state_update_wake_wf)

lemma run_wf: "bot_wf b \<Longrightarrow> bot_wf (run ss b)"
  by (induction ss arbitrary: b) (simp_all add: exec_step_wf)

lemma play_family_wf:
  "bot_wf b \<Longrightarrow> bot_wf (snd (play g query sc b))"
  "bot_wf b \<Longrightarrow> bot_wf (snd (process_tracks g kind ts b))"
  "bot_wf b \<Longrightarrow> bot_wf (process_spotify_url g url result b)"
proof (induction g query sc b and g kind ts b and g url result b
    rule: play_process_tracks_process_spotify_url.induct)
  case (1 g query in_voice cerr du oc af b)
  then show ?case
    using play_enter_wf [of b g in_voice]
      play_connect_wf [of "snd (play_enter g in_voice b)" g query cerr]
    by (simp add: case_bool_prod run_wf play_resolved_wf)
next
  case (2 g query in_voice x af b)
  then show ?case
    using play_enter_wf [of b g in_voice] by (simp add: case_bool_prod run_wf)
next
  case (3 g query in_voice result af b)
  from 3(2) have e: "bot_wf (snd (play_enter g in_voice b))"
    by (rule play_enter_wf)
  show ?case
  proof (cases "fst (play_enter g in_voice b)")
    case True
    then have "play_enter g in_voice b = (True, snd (play_enter g in_voice b))"
      by (cases "play_enter g in_voice b") simp
    from 3(1) [OF this [symmetric] _ e] True show ?thesis
      by (simp add: case_bool_prod run_wf)
  next
    case False
    with e show ?thesis
      by (simp add: case_bool_prod run_wf)
  qed
next
  case (4 g kind b)
  then show ?case by simp
next
  case (5 g kind track_title artist sc ts b)
  show ?case
  proof (cases "processing (the_queue g b)")
    case False
    with 5(3) show ?thesis by simp
  next
    case True
    then have p: "\<not> \<not> processing (the_queue g b)" by simp
    have 1: "bot_wf (snd (play g (track_title @ '' '' @ artist) sc b))"
      using 5(1) [OF p 5(3)] .
    show ?thesis
    proof (cases "play g (track_title @ '' '' @ artist) sc b")
      case (Pair e b1)
      with 1 have b1: "bot_wf b1" by simp
      show ?thesis
      proof (cases e)
        case None
        from 5(2) [OF p Pair [symmetric] None b1] Pair None True show ?thesis by simp
      next
        case (Some x)
        with Pair b1 True show ?thesis by simp
      qed
    qed
  qed
next
  case (6 g url x b)
  then show ?case
    by (simp add: get_queue_def bot_wf_set_queue bot_wf_the_queue)
next
  case (7 g url b)
  then show ?case
    by (simp add: get_queue_def bot_wf_set_queue bot_wf_the_queue)
next
  case (8 g url track_title artist sc ts b)
  let ?b1 = "set_queue g (the_queue g b) b"
  have b1: "bot_wf ?b1"
    using 8(4) by (simp add: bot_wf_set_queue bot_wf_the_queue)
  have g: "(the_queue g b, ?b1) = get_queue g b"
    by (simp add: get_queue_def)
  show ?case
  proof (cases "contains ''track'' url")
    case True
    show ?thesis
    proof (cases "processing (the_queue g b)")
      case False
      with True b1 show ?thesis by (simp add: get_queue_def)
    next
      case p: True
      then have "processing (the_queue g ?b1)" by simp
      from 8(1) [OF g refl True this b1]
      have "bot_wf (snd (play g (track_title @ '' '' @ artist) sc ?b1))" .
      with True p show ?thesis
        by (simp add: get_queue_def case_error_prod split: option.splits)
    qed
  next
    case nt: False
    show ?thesis
    proof (cases "contains ''playlist'' url")
      case True
      from 8(2) [OF g refl nt True b1]
      have "bot_wf (snd (process_tracks g ''playlist'' ((track_title, artist, sc) # ts) ?b1))" .
      with nt True show ?thesis
        by (simp add: get_queue_def case_error_prod split: option.splits del: process_tracks.simps)
    next
      case np: False
      show ?thesis
      proof (cases "contains ''album'' url")
        case True
        from 8(3) [OF g refl nt np True b1]
        have "bot_wf (snd (process_tracks g ''album'' ((track_title, artist, sc) # ts) ?b1))" .
        with nt np True show ?thesis
          by (simp add: get_queue_def case_error_prod split: option.splits del: process_tracks.simps)
      next
        case False
        with nt np b1 show ?thesis by (simp add: get_queue_def)
      qed
    qed
  qed
qed

lemma exec_operation_wf: "bot_wf b \<Longrightarrow> bot_wf (exec_operation x b)"
  by (cases x) (simp_all add: exec_step_wf play_family_wf)

lemma run_operations_wf: "bot_wf b \<Longrightarrow> bot_wf (run_operations xs b)"
  by (induction xs arbitrary: b) (simp_all add: exec_operation_wf)

lemma Bot_init_wf: "bot_wf Bot_init"
  by (simp add: bot_wf_def Bot_init_def)

section \<open>The loop over the tracks of a catalogue\<close>

lemma run_append: "run (xs @ ys) b = run ys (run xs b)"
  by (induction xs arbitrary: b) simp_all

lemma stop_not_processing: "\<not> processing (the_queue g (stop g b))"
  by (simp add: stop_def get_queue_def Let_def)

lemma process_tracks_Cons:
  "process_tracks g kind (t # ts) b =
     (if \<not> processing (the_queue g b) then (None, send g (StoppedProcessing kind) b)
      else (case play_sub g t b of
              (Some e, b1) \<Rightarrow> (Some e, b1)
            | (None, b1) \<Rightarrow> process_tracks g kind ts b1))"
  by (cases t) (simp add: play_sub_def sub_query_def)

lemma process_tracks_stopped:
  "\<not> processing (the_queue g b) \<Longrightarrow> ts \<noteq> [] \<Longrightarrow>
     process_tracks g kind ts b = (None, send g (StoppedProcessing kind) b)"
  by (cases ts) (simp_all add: process_tracks_Cons del: process_tracks.simps)

lemma process_tracks_processed:
  "processed g pre b = Some b' \<Longrightarrow>
     process_tracks g kind (pre @ rest) b = process_tracks g kind rest b'"
proof (induction pre arbitrary: b)
  case Nil
  then show ?case by simp
next
  case (Cons t pre)
  then show ?case
    by (cases "play_sub g t b")
      (auto simp add: process_tracks_Cons simp del: process_tracks.simps
        split: if_splits option.splits)
qed

lemma processed_append:
  "processed g (xs @ ys) b = (case processed g xs b of None \<Rightarrow> None | Some b1 \<Rightarrow> processed g ys b1)"
proof (induction xs arbitrary: b)
  case Nil
  then show ?case by simp
next
  case (Cons t xs)
  then show ?case
    by (cases "play_sub g t b") (auto split: option.splits)
qed

lemma processed_step:
  assumes "processed g pre b = Some b'" "i < length pre" "processed g (take i pre) b = Some bi"
  shows "processing (the_queue g bi)"
    and "fst (play_sub g (pre ! i) bi) = None"
    and "processed g (take (Suc i) pre) b = Some (snd (play_sub g (pre ! i) bi))"
proof -
  have "pre = take i pre @ pre ! i # drop (Suc i) pre"
    using assms(2) by (rule id_take_nth_drop)
  then have "processed g (take i pre @ pre ! i # drop (Suc i) pre) b = Some b'"
    using assms(1) by simp
  then have rest: "processed g (pre ! i # drop (Suc i) pre) bi = Some b'"
    using assms(3) by (simp add: processed_append)
  then show p: "processing (the_queue g bi)"
    by (simp split: if_splits)
  from rest show f: "fst (play_sub g (pre ! i) bi) = None"
    by (cases "play_sub g (pre ! i) bi") (auto split: if_splits option.splits)
  have "take (Suc i) pre = take i pre @ [pre ! i]"
    using assms(2) by (rule take_Suc_conv_app_nth)
  then show "processed g (take (Suc i) pre) b = Some (snd (play_sub g (pre ! i) bi))"
    using assms(3) p f
    by (cases "play_sub g (pre ! i) bi") (simp add: processed_append)
qed

lemma play_sub_at_resolution:
  "at_resolution g t b = Some b1 \<Longrightarrow>
     play_sub g t b = (None, run (after (snd (snd t))) (play_resolved g (outcome (snd (snd t))) b1))"
  by (cases "snd (snd t)")
    (auto simp add: at_resolution_def play_sub_def case_bool_prod split: if_splits)


lemma play_resolved_reached:
  assumes "voice_clients b g = Some vc"
  shows "next_ref b \<in> reached g (play_resolved g (Inr d) b)"
    and "sources (play_resolved g (Inr d) b) (next_ref b) = Some (YTDLSource_init d)"
  using assms
  by (auto simp add: play_resolved_def reached_def Let_def get_queue_def the_queue_def
      case_error_prod split: option.splits sum.splits)

lemmas bot_defs =
  Bot_init_def MusicQueue_init_def YTDLSource_init_def send_def the_queue_def set_queue_def
  get_queue_def vc_play_def vc_stop_def vc_disconnect_def track_ended_def play_song_def
  source_duration_def play_next_def after_task_def run_after_def play_enter_def play_connect_def
  play_resolved_def show_queue_def toggle_loop_def volume_command_def clear_def stop_def
  disconnect_def skip_def on_voice_state_update_def on_voice_state_update_wake_def
  play_sub_def sub_query_def at_resolution_def reached_def
  quiet_script_def stop_script_def song_a_def song_b_def playing_two_def
  five_items_def three_items_def broken_items_def after_one_def resolving_two_def after_two_def Let_def
  str_int_def str_nat.simps digit_char_def fmt_02d_def zero_fill_def format_duration_def
  int_of_duration_def trunc_def

section \<open>The queue and its current track\<close>

text \<open>
  Claim C1. After any sequence of operations from the start of the bot, in every guild
  that has a queue, \<^verbatim>\<open>current\<close> is \<^verbatim>\<open>None\<close> or one source, and that source is not in the
  deque. The operations are all pieces of all handlers, in any order and for any guilds,
  and whole calls of \<^verbatim>\<open>play\<close>, with other pieces running during their waits, for plain
  queries, for queries on which the URL test raises and for Spotify URLs with their
  expansions.
\<close>

theorem current_not_pending:
  "music_queues (run_operations xs Bot_init) g = Some q \<Longrightarrow>
     (case current q of None \<Rightarrow> True | Some c \<Rightarrow> c \<notin> set (queue q))"
  using run_operations_wf [OF Bot_init_wf, of xs]
  by (auto simp add: bot_wf_def queue_wf_def split: option.splits)

text \<open>
  An instance: both tracks queued, loop switched on, the first track ends and is played
  again, loop switched off, skip. The second track is then current and the deque empty.
\<close>

theorem current_not_pending_witness:
  "music_queues (run_operations ([Play 7 ''song a'' (quiet_script (Inr song_a)),
      Play 7 ''song b'' (quiet_script (Inr song_b))] @ [Atomic (ToggleLoop 7), Atomic (TrackEnded 7 None),
      Atomic (RunAfter 7), Atomic (ToggleLoop 7), Atomic (Skip 7)]) Bot_init) 7
     = Some \<lparr>queue = [], current = Some 1, loop = False, volume = 1, processing = True\<rparr> \<and>
   (case current \<lparr>queue = [], current = Some 1, loop = False, volume = 1, processing = True\<rparr> of
      None \<Rightarrow> True
    | Some c \<Rightarrow> c \<notin> set (queue \<lparr>queue = [], current = Some (1::nat), loop = False, volume = 1, processing = True\<rparr>))"
proof -
  have h: "music_queues (run_operations ([Play 7 ''song a'' (quiet_script (Inr song_a)),
      Play 7 ''song b'' (quiet_script (Inr song_b))] @ [Atomic (ToggleLoop 7), Atomic (TrackEnded 7 None),
      Atomic (RunAfter 7), Atomic (ToggleLoop 7), Atomic (Skip 7)]) Bot_init) 7
     = Some \<lparr>queue = [], current = Some 1, loop = False, volume = 1, processing = True\<rparr>"
    by (simp add: bot_defs)
  from current_not_pending [OF h] h show ?thesis
    by simp
qed

section \<open>Skip and stop while loop mode is on\<close>

text \<open>
  Claim C2 says that a skip with loop mode on never puts the skipped track back. In the
  guild where source 0 plays and source 1 is pending, with loop mode on, \<^verbatim>\<open>skip\<close> stops
  the player and calls \<^verbatim>\<open>play_next\<close>, which pushes source 0 on the left of the deque
  and pops it again: after the skip source 0 is current and playing once more and
  source 1 is still pending. The task of the stopped player's \<^verbatim>\<open>after\<close> callback, run
  next, leaves that state as it is.
\<close>

theorem skip_with_loop_restarts_skipped_track:
  "the_queue 7 (run [ToggleLoop 7, Skip 7] playing_two)
     = \<lparr>queue = [1], current = Some 0, loop = True, volume = 1, processing = True\<rparr> \<and>
   voice_clients (run [ToggleLoop 7, Skip 7] playing_two) 7
     = Some \<lparr>vc_source = Some 0, vc_playing = True\<rparr> \<and>
   the_queue 7 (run [ToggleLoop 7, Skip 7, RunAfter 7] playing_two)
     = \<lparr>queue = [1], current = Some 0, loop = True, volume = 1, processing = True\<rparr>"
  by (simp add: bot_defs)

text \<open>
  Claim C3 says that after \<^verbatim>\<open>stop\<close> the completion handling leaves the room idle with
  \<^verbatim>\<open>current\<close> cleared, whatever the loop mode. \<^verbatim>\<open>stop\<close> does set \<^verbatim>\<open>processing\<close> to false
  and empties the deque. With loop mode on, the task of the \<^verbatim>\<open>after\<close> callback then
  pushes the current source, pops it and plays it again; with loop mode off it finds
  the deque empty and returns, and \<^verbatim>\<open>current\<close> keeps the stopped source.
\<close>

theorem stop_with_loop_restarts_track:
  "the_queue 7 (run [ToggleLoop 7, Stop 7] playing_two)
     = \<lparr>queue = [], current = Some 0, loop = True, volume = 1, processing = False\<rparr> \<and>
   the_queue 7 (run [ToggleLoop 7, Stop 7, RunAfter 7] playing_two)
     = \<lparr>queue = [], current = Some 0, loop = True, volume = 1, processing = False\<rparr> \<and>
   voice_clients (run [ToggleLoop 7, Stop 7, RunAfter 7] playing_two) 7
     = Some \<lparr>vc_source = Some 0, vc_playing = True\<rparr> \<and>
   the_queue 7 (run [Stop 7, RunAfter 7] playing_two)
     = \<lparr>queue = [], current = Some 0, loop = False, volume = 1, processing = False\<rparr> \<and>
   voice_clients (run [Stop 7, RunAfter 7] playing_two) 7
     = Some \<lparr>vc_source = None, vc_playing = False\<rparr>"
  by (simp add: bot_defs)

section \<open>The end of a track\<close>

text \<open>
  Claim C4, as amended. In a guild with loop mode on whose player is playing the
  current source, when that track ends without an error, the task of the \<^verbatim>\<open>after\<close>
  callback pushes the finished source on the left of the deque before it selects the
  next track, so the selection takes that same source again: it is current and playing
  again at once, and the deque, with the tracks that were pending, is as before.
\<close>

theorem loop_finish_replays_at_once:
  "voice_clients b g = Some vc \<Longrightarrow> vc_playing vc \<Longrightarrow> vc_source vc = Some c \<Longrightarrow>
   after_tasks b g = [] \<Longrightarrow> music_queues b g = Some q \<Longrightarrow> loop q \<Longrightarrow> current q = Some c \<Longrightarrow>
     music_queues (run [TrackEnded g None, RunAfter g] b) g = Some q \<and>
     voice_clients (run [TrackEnded g None, RunAfter g] b) g = Some \<lparr>vc_source = Some c, vc_playing = True\<rparr> \<and>
     after_tasks (run [TrackEnded g None, RunAfter g] b) g = []"
  by (simp add: track_ended_def run_after_def after_task_def play_next_def play_song_def
      get_queue_def the_queue_def set_queue_def vc_play_def send_def Let_def split: sum.splits)

theorem loop_finish_replays_at_once_witness:
  "voice_clients (run [ToggleLoop 7] playing_two) 7 = Some \<lparr>vc_source = Some 0, vc_playing = True\<rparr> \<and>
   vc_playing \<lparr>vc_source = Some (0::nat), vc_playing = True\<rparr> \<and>
   vc_source \<lparr>vc_source = Some (0::nat), vc_playing = True\<rparr> = Some 0 \<and>
   after_tasks (run [ToggleLoop 7] playing_two) 7 = [] \<and>
   music_queues (run [ToggleLoop 7] playing_two) 7
     = Some \<lparr>queue = [1], current = Some 0, loop = True, volume = 1, processing = True\<rparr> \<and>
   music_queues (run [TrackEnded 7 None, RunAfter 7] (run [ToggleLoop 7] playing_two)) 7
     = Some \<lparr>queue = [1], current = Some 0, loop = True, volume = 1, processing = True\<rparr> \<and>
   voice_clients (run [TrackEnded 7 None, RunAfter 7] (run [ToggleLoop 7] playing_two)) 7
     = Some \<lparr>vc_source = Some 0, vc_playing = True\<rparr>"
proof -
  have h1: "voice_clients (run [ToggleLoop 7] playing_two) 7 = Some \<lparr>vc_source = Some 0, vc_playing = True\<rparr>"
    and h3: "after_tasks (run [ToggleLoop 7] playing_two) 7 = []"
    and h4: "music_queues (run [ToggleLoop 7] playing_two) 7
       = Some \<lparr>queue = [1], current = Some 0, loop = True, volume = 1, processing = True\<rparr>"
    by (simp_all add: bot_defs)
  have h2: "vc_playing \<lparr>vc_source = Some (0::nat), vc_playing = True\<rparr>"
    and h2': "vc_source \<lparr>vc_source = Some (0::nat), vc_playing = True\<rparr> = Some 0"
    and h5: "loop \<lparr>queue = [1::nat], current = Some (0::nat), loop = True, volume = 1, processing = True\<rparr>"
    and h6: "current \<lparr>queue = [1::nat], current = Some (0::nat), loop = True, volume = 1, processing = True\<rparr> = Some 0"
    by simp_all
  from loop_finish_replays_at_once [OF h1 h2 h2' h3 h4 h5 h6] h1 h2 h3 h4 show ?thesis
    by simp
qed

text \<open>
  Claim C4 as stated has the finished track come back after the tracks that were
  pending. With source 0 playing, source 1 pending and loop mode on, the end of source
  0 makes source 0 current again and leaves source 1 pending.
\<close>

theorem loop_finish_counterexample:
  "the_queue 7 (run [ToggleLoop 7, TrackEnded 7 None, RunAfter 7] playing_two)
     = \<lparr>queue = [1], current = Some 0, loop = True, volume = 1, processing = True\<rparr> \<and>
   current (the_queue 7 (run [ToggleLoop 7, TrackEnded 7 None, RunAfter 7] playing_two)) \<noteq> Some 1"
  by (simp add: bot_defs)

text \<open>
  Claim C5, as amended. When the player ends with a playback error, the task of the
  \<^verbatim>\<open>after\<close> callback sends the error and does nothing else: the queues are as they
  were, so \<^verbatim>\<open>current\<close> and the deque are unchanged, no track is started and the player
  is no longer playing. Every later command runs on that state as usual.
\<close>

theorem playback_error_keeps_queue:
  "voice_clients b g = Some vc \<Longrightarrow> vc_playing vc \<Longrightarrow> after_tasks b g = [] \<Longrightarrow>
     run [TrackEnded g (Some e), RunAfter g] b =
       b\<lparr>voice_clients := (voice_clients b)(g \<mapsto> vc\<lparr>vc_playing := False\<rparr>),
         sent := sent b @ [(g, PlayerError e)]\<rparr>"
  by (simp add: track_ended_def run_after_def after_task_def send_def fun_upd_idem)

theorem playback_error_keeps_queue_witness:
  "voice_clients playing_two 7 = Some \<lparr>vc_source = Some 0, vc_playing = True\<rparr> \<and>
   vc_playing \<lparr>vc_source = Some (0::nat), vc_playing = True\<rparr> \<and>
   after_tasks playing_two 7 = [] \<and>
   run [TrackEnded 7 (Some ''boom''), RunAfter 7] playing_two =
     playing_two\<lparr>voice_clients := (voice_clients playing_two)
         (7 \<mapsto> \<lparr>vc_source = Some 0, vc_playing = True\<rparr>\<lparr>vc_playing := False\<rparr>),
       sent := sent playing_two @ [(7, PlayerError ''boom'')]\<rparr>"
proof -
  have h1: "voice_clients playing_two 7 = Some \<lparr>vc_source = Some 0, vc_playing = True\<rparr>"
    and h3: "after_tasks playing_two 7 = []"
    by (simp_all add: bot_defs)
  have h2: "vc_playing \<lparr>vc_source = Some (0::nat), vc_playing = True\<rparr>"
    by simp
  from playback_error_keeps_queue [OF h1 h2 h3, of "''boom''"] h1 h2 h3 show ?thesis
    by simp
qed

text \<open>
  Claim C5 as stated has the queue advance after a playback error. With source 0
  playing and source 1 pending, a playback error leaves source 0 current, source 1
  pending and the player silent.
\<close>

theorem playback_error_counterexample:
  "the_queue 7 (run [TrackEnded 7 (Some ''boom''), RunAfter 7] playing_two)
     = \<lparr>queue = [1], current = Some 0, loop = False, volume = 1, processing = True\<rparr> \<and>
   voice_clients (run [TrackEnded 7 (Some ''boom''), RunAfter 7] playing_two) 7
     = Some \<lparr>vc_source = Some 0, vc_playing = False\<rparr> \<and>
   after_tasks (run [TrackEnded 7 (Some ''boom''), RunAfter 7] playing_two) 7 = []"
  by (simp add: bot_defs)

section \<open>Stopping an expansion\<close>

text \<open>
  Claim C6. In the loop over the tracks of a playlist or an album, let the loop have
  gone through the first \<open>k\<close> tracks (\<open>pre\<close>), and let a \<^verbatim>\<open>stop\<close> be observed then: the
  check that follows finds \<^verbatim>\<open>processing\<close> false. If tracks remain, the loop ends there
  without an exception: the final state is the state after the \<open>k\<close> calls of \<^verbatim>\<open>play\<close>
  plus the message that processing stopped, so nothing of the remaining tracks reaches
  the deque or \<^verbatim>\<open>current\<close>, no source is created for them, and \<^verbatim>\<open>create_source\<close> is called
  for none of them. And each of the \<open>k\<close> tracks that resolved did reach the queue: at
  the moment \<^verbatim>\<open>create_source\<close> returned for it, in a guild with a voice client, a new
  source with the resolved data was stored and put in the deque or made current, and
  the loop went on from that state (after the steps that ran during the final
  \<^verbatim>\<open>ctx.send\<close> of that call).
\<close>

theorem stop_ends_expansion:
  "processed g pre b = Some b' \<Longrightarrow> \<not> processing (the_queue g b') \<Longrightarrow> rest \<noteq> [] \<Longrightarrow>
     process_tracks g kind (pre @ rest) b = (None, send g (StoppedProcessing kind) b') \<and>
     resolve_calls (snd (process_tracks g kind (pre @ rest) b)) = resolve_calls b' \<and>
     sources (snd (process_tracks g kind (pre @ rest) b)) = sources b' \<and>
     next_ref (snd (process_tracks g kind (pre @ rest) b)) = next_ref b' \<and>
     music_queues (snd (process_tracks g kind (pre @ rest) b)) = music_queues b' \<and>
     (\<forall>i bi b1 d vc.
        i < length pre \<and> processed g (take i pre) b = Some bi \<and>
        at_resolution g (pre ! i) bi = Some b1 \<and> outcome (snd (snd (pre ! i))) = Inr d \<and>
        voice_clients b1 g = Some vc \<longrightarrow>
          next_ref b1 \<in> reached g (play_resolved g (Inr d) b1) \<and>
          sources (play_resolved g (Inr d) b1) (next_ref b1) = Some (YTDLSource_init d) \<and>
          processed g (take (Suc i) pre) b
            = Some (run (after (snd (snd (pre ! i)))) (play_resolved g (Inr d) b1)))"
proof -
  assume pre: "processed g pre b = Some b'"
    and stopped: "\<not> processing (the_queue g b')"
    and rest: "rest \<noteq> []"
  have "process_tracks g kind rest b' = (None, send g (StoppedProcessing kind) b')"
    using stopped rest by (rule process_tracks_stopped)
  moreover have "process_tracks g kind (pre @ rest) b = process_tracks g kind rest b'"
    using pre by (rule process_tracks_processed)
  ultimately have ended: "process_tracks g kind (pre @ rest) b = (None, send g (StoppedProcessing kind) b')"
    by simp
  have item: "next_ref b1 \<in> reached g (play_resolved g (Inr d) b1) \<and>
      sources (play_resolved g (Inr d) b1) (next_ref b1) = Some (YTDLSource_init d) \<and>
      processed g (take (Suc i) pre) b
        = Some (run (after (snd (snd (pre ! i)))) (play_resolved g (Inr d) b1))"
    if "i < length pre" "processed g (take i pre) b = Some bi"
      "at_resolution g (pre ! i) bi = Some b1" "outcome (snd (snd (pre ! i))) = Inr d"
      "voice_clients b1 g = Some vc"
    for i bi b1 d vc
    using play_resolved_reached [OF that(5), of d] processed_step(3) [OF pre that(1,2)]
      play_sub_at_resolution [OF that(3)] that(4)
    by simp
  from ended item show ?thesis
    by simp blast
qed

text \<open>
  An instance: a playlist of five tracks; \<^verbatim>\<open>stop\<close> runs while the call of \<^verbatim>\<open>play\<close> for
  the second track waits in its final \<^verbatim>\<open>ctx.send\<close>. Two queries are resolved, two sources
  exist, and the last message says that processing stopped. When the second track
  resolved, sources 0 and 1 were the current one and the deque. The whole command,
  given the URL of the playlist, resolves the same two queries.
\<close>

theorem stop_ends_expansion_witness:
  "processed 7 (take 2 five_items) Bot_init = Some after_two \<and>
   \<not> processing (the_queue 7 after_two) \<and>
   drop 2 five_items \<noteq> [] \<and>
   resolve_calls (snd (process_tracks 7 ''playlist'' (take 2 five_items @ drop 2 five_items) Bot_init))
     = [(7, ''one x''), (7, ''two x'')] \<and>
   next_ref (snd (process_tracks 7 ''playlist'' (take 2 five_items @ drop 2 five_items) Bot_init)) = 2 \<and>
   last (sent (snd (process_tracks 7 ''playlist'' (take 2 five_items @ drop 2 five_items) Bot_init)))
     = (7, StoppedProcessing ''playlist'') \<and>
   (1::nat) < length (take 2 five_items) \<and>
   processed 7 (take 1 (take 2 five_items)) Bot_init = Some after_one \<and>
   at_resolution 7 (take 2 five_items ! 1) after_one = Some resolving_two \<and>
   outcome (snd (snd (take 2 five_items ! 1))) = Inr song_b \<and>
   voice_clients resolving_two 7 = Some \<lparr>vc_source = Some 0, vc_playing = True\<rparr> \<and>
   next_ref resolving_two = 1 \<and>
   reached 7 (play_resolved 7 (Inr song_b) resolving_two) = {0, 1} \<and>
   the_queue 7 (play_resolved 7 (Inr song_b) resolving_two)
     = \<lparr>queue = [1], current = Some 0, loop = False, volume = 1, processing = True\<rparr> \<and>
   resolve_calls (snd (play 7 ''https://open.spotify.com/playlist/p1''
      (SpotifyScript True (Inr five_items) []) Bot_init))
     = [(7, ''one x''), (7, ''two x'')]"
proof -
  have h1: "processed 7 (take 2 five_items) Bot_init = Some after_two"
    and h2: "\<not> processing (the_queue 7 after_two)"
    and h3: "drop 2 five_items \<noteq> []"
    and r: "resolve_calls after_two = [(7, ''one x''), (7, ''two x'')]"
    and n: "next_ref after_two = 2"
    and i1: "(1::nat) < length (take 2 five_items)"
    and i2: "processed 7 (take 1 (take 2 five_items)) Bot_init = Some after_one"
    and i3: "at_resolution 7 (take 2 five_items ! 1) after_one = Some resolving_two"
    and i4: "outcome (snd (snd (take 2 five_items ! 1))) = Inr song_b"
    and i5: "voice_clients resolving_two 7 = Some \<lparr>vc_source = Some 0, vc_playing = True\<rparr>"
    and i6: "next_ref resolving_two = 1"
    and i7: "reached 7 (play_resolved 7 (Inr song_b) resolving_two) = {0, 1}"
    and i8: "the_queue 7 (play_resolved 7 (Inr song_b) resolving_two)
       = \<lparr>queue = [1], current = Some 0, loop = False, volume = 1, processing = True\<rparr>"
    and c: "resolve_calls (snd (play 7 ''https://open.spotify.com/playlist/p1''
        (SpotifyScript True (Inr five_items) []) Bot_init))
       = [(7, ''one x''), (7, ''two x'')]"
    by (simp_all add: bot_defs)
  from stop_ends_expansion [OF h1 h2 h3, of "''playlist''"] h1 h2 h3 r n i1 i2 i3 i4 i5 i6 i7 i8 c
  show ?thesis
    by simp
qed

text \<open>
  For comparison, a \<^verbatim>\<open>stop\<close> that runs while the call of \<^verbatim>\<open>play\<close> for the third track
  waits for \<^verbatim>\<open>create_source\<close>: that call had passed its check, so the third track is
  still resolved and started, and the check before the fourth track ends the loop.
\<close>

lemma stop_during_resolution_instance:
  "resolve_calls (snd (process_tracks 7 ''playlist''
      [(''one'', ''x'', quiet_script (Inr song_a)), (''two'', ''x'', quiet_script (Inr song_b)),
       (''three'', ''x'', PlayScript True None [Stop 7] (Inr song_a) []),
       (''four'', ''x'', quiet_script (Inr song_b))] Bot_init))
     = [(7, ''one x''), (7, ''two x''), (7, ''three x'')] \<and>
   the_queue 7 (snd (process_tracks 7 ''playlist''
      [(''one'', ''x'', quiet_script (Inr song_a)), (''two'', ''x'', quiet_script (Inr song_b)),
       (''three'', ''x'', PlayScript True None [Stop 7] (Inr song_a) []),
       (''four'', ''x'', quiet_script (Inr song_b))] Bot_init))
     = \<lparr>queue = [], current = Some 2, loop = False, volume = 1, processing = False\<rparr>"
  by (simp add: bot_defs)

section \<open>The idle monitor\<close>

text \<open>
  Claim C7, as amended. A voice state update that finds no human in the bot's channel
  while the guild has a voice client starts one more sleep of the grace period, whatever
  the number of sleeps already under way, and changes nothing else; an update that
  finds a human changes nothing, and cancels no sleep. A sleep that ends while a human
  is in the channel disconnects nothing and leaves the queues alone. A sleep that ends
  with no human in the channel sets \<^verbatim>\<open>processing\<close> to false, empties the deque and
  leaves the guild without a voice client.
\<close>

theorem idle_monitor_cases:
  "(voice_clients b g = Some vc \<longrightarrow>
      sleepers (on_voice_state_update g 0 b) g = Suc (sleepers b g) \<and>
      voice_clients (on_voice_state_update g 0 b) = voice_clients b \<and>
      music_queues (on_voice_state_update g 0 b) = music_queues b) \<and>
   (0 < humans \<longrightarrow>
      on_voice_state_update g humans b = b \<and>
      voice_clients (on_voice_state_update_wake g humans b) = voice_clients b \<and>
      music_queues (on_voice_state_update_wake g humans b) = music_queues b) \<and>
   (0 < sleepers b g \<and> music_queues b g = Some q \<longrightarrow>
      voice_clients (on_voice_state_update_wake g 0 b) g = None \<and>
      music_queues (on_voice_state_update_wake g 0 b) g = Some (q\<lparr>processing := False, queue := []\<rparr>) \<and>
      sleepers (on_voice_state_update_wake g 0 b) g = sleepers b g - 1)"
  by (simp add: on_voice_state_update_def on_voice_state_update_wake_def Let_def split: option.splits)

theorem idle_monitor_cases_witness:
  "voice_clients playing_two 7 = Some \<lparr>vc_source = Some 0, vc_playing = True\<rparr> \<and>
   sleepers (on_voice_state_update 7 0 playing_two) 7 = 1 \<and>
   (0::nat) < 1 \<and>
   voice_clients (on_voice_state_update_wake 7 1 (on_voice_state_update 7 0 playing_two)) 7
     = Some \<lparr>vc_source = Some 0, vc_playing = True\<rparr> \<and>
   0 < sleepers (on_voice_state_update 7 0 playing_two) 7 \<and>
   music_queues (on_voice_state_update 7 0 playing_two) 7
     = Some \<lparr>queue = [1], current = Some 0, loop = False, volume = 1, processing = True\<rparr> \<and>
   voice_clients (on_voice_state_update_wake 7 0 (on_voice_state_update 7 0 playing_two)) 7 = None \<and>
   music_queues (on_voice_state_update_wake 7 0 (on_voice_state_update 7 0 playing_two)) 7
     = Some \<lparr>queue = [], current = Some 0, loop = False, volume = 1, processing = False\<rparr>"
proof -
  have h1: "voice_clients playing_two 7 = Some \<lparr>vc_source = Some 0, vc_playing = True\<rparr>"
    and h2: "music_queues (on_voice_state_update 7 0 playing_two) 7
       = Some \<lparr>queue = [1], current = Some 0, loop = False, volume = 1, processing = True\<rparr>"
    and h3: "sleepers playing_two 7 = 0"
    by (simp_all add: bot_defs)
  from idle_monitor_cases [of playing_two 7 "\<lparr>vc_source = Some 0, vc_playing = True\<rparr>" 1
      "\<lparr>queue = [1], current = Some 0, loop = False, volume = 1, processing = True\<rparr>"]
    idle_monitor_cases [of "on_voice_state_update 7 0 playing_two" 7
      "\<lparr>vc_source = Some 0, vc_playing = True\<rparr>" 1
      "\<lparr>queue = [1], current = Some 0, loop = False, volume = 1, processing = True\<rparr>"]
    h1 h2 h3
  show ?thesis
    by simp
qed

text \<open>
  Claim C7 as stated allows one sleep of the grace period at a time and no disconnect
  once a human has come back in time. Two updates that find the channel empty leave two
  sleeps under way. And when the channel empties, a human comes back and leaves again,
  the first sleep, ending on an empty channel, disconnects although the channel has
  just emptied a second time.
\<close>

theorem two_grace_sleeps_counterexample:
  "sleepers (run [VoiceUpdate 7 0, VoiceUpdate 7 0] playing_two) 7 = 2 \<and>
   sleepers (run [VoiceUpdate 7 0, VoiceUpdate 7 1, VoiceUpdate 7 0] playing_two) 7 = 2 \<and>
   voice_clients (run [VoiceUpdate 7 0, VoiceUpdate 7 1, VoiceUpdate 7 0, GraceExpired 7 0] playing_two) 7
     = None"
  by (simp add: bot_defs)

section \<open>The volume command\<close>

text \<open>
  Claim C8, as amended. For a percentage outside 0..200 the command reports it and
  changes nothing. For a percentage within 0..200: when the voice client has a player,
  the volume of the player's source becomes the percentage over 100 and the command
  reports the new volume; when the guild has no voice client or the voice client no
  player, the command reports that nothing is playing and changes nothing. In no case
  is the \<^verbatim>\<open>volume\<close> of the guild's queue, or anything else of the queues, written, and a
  source created afterwards starts at volume 1.
\<close>

theorem volume_command_cases:
  "(\<not> (0 \<le> pct \<and> pct \<le> 200) \<longrightarrow> volume_command g pct b = send g VolumeOutOfRange b) \<and>
   (0 \<le> pct \<and> pct \<le> 200 \<and> voice_clients b g = Some vc \<and> vc_source vc = Some r \<and> sources b r = Some s \<longrightarrow>
      volume_command g pct b =
        send g (VolumeSet pct) (b\<lparr>sources := (sources b)(r \<mapsto> s\<lparr>source_volume := of_int pct / 100\<rparr>)\<rparr>)) \<and>
   (0 \<le> pct \<and> pct \<le> 200 \<and> (voice_clients b g = None \<or> voice_clients b g = Some vc \<and> vc_source vc = None) \<longrightarrow>
      volume_command g pct b = send g NotPlayingAudio b) \<and>
   music_queues (volume_command g pct b) = music_queues b \<and>
   map_option source_volume (sources (play_resolved g' (Inr d) (volume_command g pct b)) (next_ref b)) = Some 1"
proof -
  have keep: "music_queues (volume_command g pct b) = music_queues b"
    "next_ref (volume_command g pct b) = next_ref b"
    by (simp_all add: volume_command_def split: option.splits)
  have fresh: "map_option source_volume (sources (play_resolved g' (Inr d) b') (next_ref b')) = Some 1" for b'
    by (simp add: play_resolved_def Let_def get_queue_def case_error_prod
        YTDLSource_init_def split: option.splits sum.splits)
  show ?thesis
    using keep fresh [of "volume_command g pct b"]
    by (auto simp add: volume_command_def)
qed

theorem volume_command_cases_witness:
  "\<not> (0 \<le> (250::int) \<and> (250::int) \<le> 200) \<and>
   volume_command 7 250 playing_two = send 7 VolumeOutOfRange playing_two \<and>
   0 \<le> (50::int) \<and> (50::int) \<le> 200 \<and>
   voice_clients playing_two 7 = Some \<lparr>vc_source = Some 0, vc_playing = True\<rparr> \<and>
   sources playing_two 0 = Some (YTDLSource_init song_a) \<and>
   volume_command 7 50 playing_two =
     send 7 (VolumeSet 50) (playing_two\<lparr>sources := (sources playing_two)
        (0 \<mapsto> (YTDLSource_init song_a)\<lparr>source_volume := 1 / 2\<rparr>)\<rparr>) \<and>
   voice_clients Bot_init 7 = None \<and>
   volume_command 7 50 Bot_init = send 7 NotPlayingAudio Bot_init"
proof -
  have h1: "voice_clients playing_two 7 = Some \<lparr>vc_source = Some 0, vc_playing = True\<rparr>"
    and h2: "sources playing_two 0 = Some (YTDLSource_init song_a)"
    and h3: "voice_clients Bot_init 7 = None"
    by (simp_all add: bot_defs)
  from volume_command_cases [of 250 7 playing_two]
    volume_command_cases [of 50 7 playing_two "\<lparr>vc_source = Some 0, vc_playing = True\<rparr>" 0
      "YTDLSource_init song_a"]
    volume_command_cases [of 50 7 Bot_init]
    h1 h2 h3
  show ?thesis
    by simp
qed

text \<open>
  Claim C8 as stated has the command store the volume for the tracks that follow. With
  source 0 playing and source 1 pending, a volume of 50 sets the volume of source 0 to
  one half; the \<^verbatim>\<open>volume\<close> of the queue stays 1, and source 1, started when source 0
  ends, plays at volume 1.
\<close>

theorem volume_not_stored_counterexample:
  "volume (the_queue 7 (run [Volume 7 50, TrackEnded 7 None, RunAfter 7] playing_two)) = 1 \<and>
   current (the_queue 7 (run [Volume 7 50, TrackEnded 7 None, RunAfter 7] playing_two)) = Some 1 \<and>
   voice_clients (run [Volume 7 50, TrackEnded 7 None, RunAfter 7] playing_two) 7
     = Some \<lparr>vc_source = Some 1, vc_playing = True\<rparr> \<and>
   map_option source_volume (sources (run [Volume 7 50, TrackEnded 7 None, RunAfter 7] playing_two) 1) = Some 1 \<and>
   map_option source_volume (sources (run [Volume 7 50, TrackEnded 7 None, RunAfter 7] playing_two) 0) = Some (1 / 2)"
  by (simp add: bot_defs)

section \<open>A track of a catalogue that cannot be resolved\<close>



text \<open>
  The failure above is one of \<^verbatim>\<open>create_source\<close>, inside the \<^verbatim>\<open>try\<close> of lines 256-280.
  The test of line 252 stands before that \<^verbatim>\<open>try\<close>: when \<^verbatim>\<open>urlparse\<close> raises on the query
  of a track, the exception leaves \<^verbatim>\<open>play\<close>, and the \<^verbatim>\<open>except\<close> of lines 239-240 reports
  it and ends the loop. With such a second track, the third is neither resolved nor
  queued.
\<close>

lemma url_error_ends_expansion_instance:
  "fst (process_tracks 7 ''playlist'' broken_items Bot_init) = Some (ValueError ''Invalid IPv6 URL'') \<and>
   resolve_calls (snd (process_tracks 7 ''playlist'' broken_items Bot_init)) = [(7, ''one x'')] \<and>
   next_ref (snd (process_tracks 7 ''playlist'' broken_items Bot_init)) = 1 \<and>
   sent (snd (play 7 ''https://open.spotify.com/playlist/p1''
      (SpotifyScript True (Inr broken_items) []) Bot_init))
     = [(7, NowPlaying 0 ''1:02:05''), (7, SpotifyError (ValueError ''Invalid IPv6 URL''))] \<and>
   the_queue 7 (snd (play 7 ''https://open.spotify.com/playlist/p1''
      (SpotifyScript True (Inr broken_items) []) Bot_init))
     = \<lparr>queue = [], current = Some 0, loop = False, volume = 1, processing = True\<rparr> \<and>
   sources (snd (play 7 ''https://open.spotify.com/playlist/p1''
      (SpotifyScript True (Inr broken_items) []) Bot_init)) 1 = None"
  by (simp add: bot_defs)

section \<open>Properties of the duration formatter\<close>

lemma fmt_02d_two_digits:
  assumes "0 \<le> i" "i < 100"
  shows "fmt_02d i = [digit_char (nat i div 10), digit_char (nat i mod 10)]"
proof (cases "nat i < 10")
  case True
  then have "nat i div 10 = 0" "nat i mod 10 = nat i" by simp_all
  with True assms show ?thesis
    by (simp add: fmt_02d_def zero_fill_def str_nat.simps [of "nat i"] digit_char_def)
next
  case False
  with assms have "nat i div 10 < 10" by linarith
  with False assms show ?thesis
    by (simp add: fmt_02d_def zero_fill_def str_nat.simps [of "nat i"]
        str_nat.simps [of "nat i div 10"])
qed

text \<open>
  Claim C10, as amended. On \<^verbatim>\<open>None\<close>, on an integer and on a finite float the formatter
  returns a string: \<open>Unknown\<close> when the duration is missing; otherwise, with \<open>d\<close> the
  whole seconds of the duration (the integer itself, the float with its fraction
  dropped towards zero, so that a float is at least 3600 exactly when its whole seconds
  are), for \<open>d \<ge> 3600\<close> the hours (at least 1), a colon, the minutes as exactly two
  digits, a colon and the seconds as exactly two digits, and for \<open>d < 3600\<close> the minutes,
  a colon and the seconds as exactly two digits. The hours are \<open>d div 3600\<close>, the minutes
  \<open>(d mod 3600) div 60\<close> and the seconds \<open>d mod 60\<close>, the last two from 0 to 59, also for
  a negative duration. On a float that is not a number or is infinite the formatter
  raises and returns no string.
\<close>

theorem format_duration_shape:
  "format_duration None = Inr ''Unknown'' \<and>
   int_of_duration (PyInt i) = Inr i \<and>
   int_of_duration (PyFloat x) = Inr (trunc x) \<and>
   (3600 \<le> trunc x) = (3600 \<le> x) \<and>
   (int_of_duration n = Inr d \<and> 3600 \<le> d \<longrightarrow>
      0 < d div 3600 \<and>
      format_duration (Some n) =
        Inr (str_int (d div 3600) @ '':''
          @ [digit_char (nat (d mod 3600 div 60) div 10), digit_char (nat (d mod 3600 div 60) mod 10)]
          @ '':'' @ [digit_char (nat (d mod 60) div 10), digit_char (nat (d mod 60) mod 10)])) \<and>
   (int_of_duration n = Inr d \<and> d < 3600 \<longrightarrow>
      format_duration (Some n) =
        Inr (str_int (d mod 3600 div 60) @ '':''
          @ [digit_char (nat (d mod 60) div 10), digit_char (nat (d mod 60) mod 10)])) \<and>
   0 \<le> d mod 3600 div 60 \<and> d mod 3600 div 60 < 60 \<and> 0 \<le> d mod 60 \<and> d mod 60 < 60 \<and>
   format_duration (Some PyNaN) = Inl (ValueError ''cannot convert float NaN to integer'') \<and>
   format_duration (Some PyInf) = Inl (OverflowError ''cannot convert float infinity to integer'') \<and>
   format_duration (Some PyNegInf) = Inl (OverflowError ''cannot convert float infinity to integer'')"
proof -
  have m: "0 \<le> (d mod 3600) div 60" "(d mod 3600) div 60 < 100"
    by simp_all
  have c: "0 \<le> (d mod 3600) mod 60" "(d mod 3600) mod 60 < 100"
    using pos_mod_bound [of 60 "d mod 3600"] by simp_all
  have cc: "(d mod 3600) mod 60 = d mod 60"
    by (simp add: mod_mod_cancel)
  have basic: "format_duration None = Inr ''Unknown''" "int_of_duration (PyInt i) = Inr i"
    "int_of_duration (PyFloat x) = Inr (trunc x)"
    "format_duration (Some PyNaN) = Inl (ValueError ''cannot convert float NaN to integer'')"
    "format_duration (Some PyInf) = Inl (OverflowError ''cannot convert float infinity to integer'')"
    "format_duration (Some PyNegInf) = Inl (OverflowError ''cannot convert float infinity to integer'')"
    by (simp_all add: format_duration_def int_of_duration_def)
  have tr: "(3600 \<le> trunc x) = (3600 \<le> x)"
  proof (cases "0 \<le> x")
    case True
    then show ?thesis by (simp add: trunc_def le_floor_iff)
  next
    case False
    then have "\<lceil>x\<rceil> \<le> 0" by (simp add: ceiling_le_iff)
    with False show ?thesis by (simp add: trunc_def)
  qed
  have hours: "0 < d div 3600" if "3600 \<le> d"
    using that by (simp add: pos_imp_zdiv_pos_iff)
  have long: "format_duration (Some n) =
        Inr (str_int (d div 3600) @ '':''
          @ [digit_char (nat (d mod 3600 div 60) div 10), digit_char (nat (d mod 3600 div 60) mod 10)]
          @ '':'' @ [digit_char (nat (d mod 60) div 10), digit_char (nat (d mod 60) mod 10)])"
    if "int_of_duration n = Inr d" "3600 \<le> d"
    using hours [OF that(2)] that(1) fmt_02d_two_digits [OF m] fmt_02d_two_digits [OF c]
    by (simp add: format_duration_def Let_def cc)
  have short: "format_duration (Some n) =
        Inr (str_int (d mod 3600 div 60) @ '':''
          @ [digit_char (nat (d mod 60) div 10), digit_char (nat (d mod 60) mod 10)])"
    if "int_of_duration n = Inr d" "d < 3600"
  proof -
    from that(2) have "\<not> 0 < d div 3600"
      by (simp add: pos_imp_zdiv_pos_iff)
    then show ?thesis
      using that(1) fmt_02d_two_digits [OF c]
      by (simp add: format_duration_def Let_def cc)
  qed
  have "d mod 3600 < 3600"
    by simp
  then have "d mod 3600 div 60 < 60"
    by linarith
  then have bounds: "0 \<le> d mod 3600 div 60 \<and> d mod 3600 div 60 < 60 \<and> 0 \<le> d mod 60 \<and> d mod 60 < 60"
    by simp
  from basic tr hours long short bounds show ?thesis
    by blast
qed

text \<open>Instances: 3725 seconds, 125 seconds, and the float 3730.5.\<close>

theorem format_duration_shape_witness:
  "int_of_duration (PyInt 3725) = Inr 3725 \<and> (3600::int) \<le> 3725 \<and>
   format_duration (Some (PyInt 3725)) = Inr ''1:02:05'' \<and>
   int_of_duration (PyInt 125) = Inr 125 \<and> (125::int) < 3600 \<and>
   format_duration (Some (PyInt 125)) = Inr ''2:05'' \<and>
   int_of_duration (PyFloat (7461 / 2)) = Inr 3730 \<and> (3600::int) \<le> 3730 \<and>
   format_duration (Some (PyFloat (7461 / 2))) = Inr ''1:02:10''"
proof -
  have "\<lfloor>7461 / 2 :: rat\<rfloor> = 3730"
    by (rule floor_unique) simp_all
  then have d: "int_of_duration (PyInt 3725) = Inr 3725" "int_of_duration (PyInt 125) = Inr 125"
    "int_of_duration (PyFloat (7461 / 2)) = Inr 3730"
    by (simp_all add: int_of_duration_def trunc_def)
  from format_duration_shape [of _ _ "PyInt 3725" 3725] format_duration_shape [of _ _ "PyInt 125" 125]
    format_duration_shape [of _ _ "PyFloat (7461 / 2)" 3730] d
  show ?thesis
    by (simp add: str_int_def str_nat.simps digit_char_def)
qed

text \<open>
  Claim C10 as stated has the formatter return a string on every input. On the floats
  that \<^verbatim>\<open>int\<close> refuses it raises.
\<close>

theorem format_duration_raises_counterexample:
  "format_duration (Some PyNaN) = Inl (ValueError ''cannot convert float NaN to integer'') \<and>
   format_duration (Some PyInf) = Inl (OverflowError ''cannot convert float infinity to integer'')"
  by (simp add: format_duration_def int_of_duration_def)

end
